theory Spec2Isabelle
  imports Main "HOL-Library.Word"
begin

section \<open>JavaScript numbers and strings of digits\<close>

text \<open>
  The relayer parses every quantity that arrives in an RPC argument with the built-in
  \<^verbatim>\<open>parseInt(s, 16)\<close>. Its result is a JavaScript Number: an IEEE-754 double, so an
  integer of more than 53 significant bits is rounded (to nearest, ties to even), a
  magnitude beyond the largest double is an infinity, and a string with no digit is NaN.
  \<open>Fin n\<close> is the Number whose value is the integer \<open>n\<close> (it stands for both zeros).
  Strings are lists of code units below 256.
\<close>

datatype number = NaN | Fin int | PosInf | NegInf

fun bit_length :: "nat \<Rightarrow> nat" where
  "bit_length n = (if n = 0 then 0 else Suc (bit_length (n div 2)))"

declare bit_length.simps [simp del]

definition round53 :: "nat \<Rightarrow> nat" where
  \<comment> \<open>the nearest integer with at most 53 significant bits, ties to the even significand\<close>
  "round53 n =
     (let k = bit_length n in
      if k \<le> 53 then n
      else
        let e = k - 53; q = n div 2 ^ e; r = n mod 2 ^ e; h = 2 ^ (e - 1)
        in (if h < r \<or> (r = h \<and> odd q) then q + 1 else q) * 2 ^ e)"

definition round_double :: "int \<Rightarrow> int" where
  "round_double x = (if x < 0 then - int (round53 (nat (- x))) else int (round53 (nat x)))"

definition to_number :: "int \<Rightarrow> number" where
  \<comment> \<open>the Number value of a mathematical integer; a rounded magnitude of \<open>2 ^ 1024\<close> or
      more (1025 bits) is an infinity\<close>
  "to_number x =
     (let r = round_double x in
      if 1024 < bit_length (nat \<bar>r\<bar>) then (if x < 0 then NegInf else PosInf) else Fin r)"

definition is_whitespace :: "char \<Rightarrow> bool" where
  \<comment> \<open>the white space and line terminators of ECMAScript among the code units below 256\<close>
  "is_whitespace c = (of_char c \<in> {9, 10, 11, 12, 13, 32, 160 :: nat})"

definition digit_of :: "char \<Rightarrow> nat option" where
  "digit_of c =
     (let n = of_char c :: nat in
      if 48 \<le> n \<and> n \<le> 57 then Some (n - 48)
      else if 97 \<le> n \<and> n \<le> 122 then Some (n - 87)
      else if 65 \<le> n \<and> n \<le> 90 then Some (n - 55)
      else None)"

definition is_digit :: "nat \<Rightarrow> char \<Rightarrow> bool" where
  "is_digit radix c = (case digit_of c of Some d \<Rightarrow> d < radix | None \<Rightarrow> False)"

definition radix_value :: "nat \<Rightarrow> string \<Rightarrow> nat" where
  "radix_value radix z =
     foldl (\<lambda>acc c. radix * acc + (case digit_of c of Some d \<Rightarrow> d | None \<Rightarrow> 0)) 0 z"

definition parseInt16 :: "string \<Rightarrow> number" where
  \<comment> \<open>\<^verbatim>\<open>parseInt(input, 16)\<close>: leading white space, a sign, an optional \<^verbatim>\<open>0x\<close>, then
      the longest run of hexadecimal digits; whatever follows the run is ignored\<close>
  "parseInt16 input =
     (let s = dropWhile is_whitespace input;
          neg = (take 1 s = ''-'');
          s1 = (if take 1 s = ''+'' \<or> take 1 s = ''-'' then drop 1 s else s);
          s2 = (if take 2 s1 = ''0x'' \<or> take 2 s1 = ''0X'' then drop 2 s1 else s1);
          z = takeWhile (is_digit 16) s2
      in if z = [] then NaN
         else to_number (if neg then - int (radix_value 16 z) else int (radix_value 16 z)))"

datatype error = Error string | TypeError string | SyntaxError string | StoreError string

definition trim :: "string \<Rightarrow> string" where
  "trim s = rev (dropWhile is_whitespace (rev (dropWhile is_whitespace s)))"

definition digits_to_int :: "nat \<Rightarrow> string \<Rightarrow> string \<Rightarrow> error + int" where
  "digits_to_int radix whole z =
     (if z \<noteq> [] \<and> list_all (is_digit radix) z then Inr (int (radix_value radix z))
      else Inl (SyntaxError (''Cannot convert '' @ whole @ '' to a BigInt'')))"

definition BigInt :: "string \<Rightarrow> error + int" where
  \<comment> \<open>\<^verbatim>\<open>BigInt(val)\<close> of a string: the whole trimmed string must be an integer literal
      (signed decimal, or unsigned with a \<^verbatim>\<open>0x\<close>, \<^verbatim>\<open>0o\<close> or \<^verbatim>\<open>0b\<close> prefix); the
      empty string is zero\<close>
  "BigInt val =
     (let s = trim val in
      if s = [] then Inr 0
      else if take 2 s = ''0x'' \<or> take 2 s = ''0X'' then digits_to_int 16 val (drop 2 s)
      else if take 2 s = ''0o'' \<or> take 2 s = ''0O'' then digits_to_int 8 val (drop 2 s)
      else if take 2 s = ''0b'' \<or> take 2 s = ''0B'' then digits_to_int 2 val (drop 2 s)
      else if take 1 s = ''-'' then map_sum id uminus (digits_to_int 10 val (drop 1 s))
      else if take 1 s = ''+'' then digits_to_int 10 val (drop 1 s)
      else digits_to_int 10 val s)"

text \<open>
  \<open>DatabaseServer._init\<close> installs \<^verbatim>\<open>(val: string) => BigInt(val)\<close> as the parser of the
  store's \<^verbatim>\<open>INT8\<close>, \<^verbatim>\<open>NUMERIC\<close>, \<^verbatim>\<open>blockno\<close>, \<^verbatim>\<open>chainid\<close>, \<^verbatim>\<open>u64\<close> and \<^verbatim>\<open>u256\<close>
  columns.
\<close>

definition type_parser :: "string \<Rightarrow> error + int" where
  "type_parser val = BigInt val"

text \<open>
  The standard renderings of a natural number in a radix (no leading zero, lower case),
  \<^verbatim>\<open>n.toString(radix)\<close>, and the text the store sends for an integer column.
\<close>

definition digit_char :: "nat \<Rightarrow> char" where
  "digit_char d = ''0123456789abcdef'' ! d"

function radix_string :: "nat \<Rightarrow> nat \<Rightarrow> string" where
  "radix_string radix n =
     (if n < radix \<or> radix < 2 then [digit_char n]
      else radix_string radix (n div radix) @ [digit_char (n mod radix)])"
  by pat_completeness auto
termination
  by (relation "measure snd") auto

declare radix_string.simps [simp del]

definition hex_of_nat :: "nat \<Rightarrow> string" where
  "hex_of_nat n = radix_string 16 n"

definition column_text :: "int \<Rightarrow> string" where
  "column_text n = (if n < 0 then ''-'' @ radix_string 10 (nat (- n)) else radix_string 10 (nat n))"

section \<open>Values, bytes and the relational predicate tree\<close>

type_synonym byte = "8 word"

datatype jsvalue =
    JUndefined
  | JNull
  | JBool bool
  | JNumber number
  | JBigInt int
  | JString string
  | JBuffer "byte list"
  | JArray "jsvalue list"
  | JObject "(string \<times> jsvalue) list"

fun truthy :: "jsvalue \<Rightarrow> bool" where
  "truthy JUndefined = False"
| "truthy JNull = False"
| "truthy (JBool b) = b"
| "truthy (JNumber n) = (n \<noteq> NaN \<and> n \<noteq> Fin 0)"
| "truthy (JBigInt n) = (n \<noteq> 0)"
| "truthy (JString s) = (s \<noteq> [])"
| "truthy (JBuffer b) = True"
| "truthy (JArray vs) = True"
| "truthy (JObject kvs) = True"

fun hex_decode :: "string \<Rightarrow> byte list" where
  \<comment> \<open>\<^verbatim>\<open>Buffer.from(s, 'hex')\<close>: pairs of hexadecimal digits, up to the first pair that
      is not one\<close>
  "hex_decode (a # b # cs) =
     (if is_digit 16 a \<and> is_digit 16 b
      then word_of_nat (radix_value 16 [a, b]) # hex_decode cs
      else [])"
| "hex_decode cs = []"

definition hexToBytes :: "string \<Rightarrow> byte list" where
  "hexToBytes input = hex_decode (drop 2 input)"

text \<open>
  \<open>hexToBytes\<close> is the function of the topic compiler; the server imports the one of the
  engine library, taken to be the same. \<open>bytesToHex\<close>, \<open>intToHex\<close> and, below,
  \<open>exportJSON\<close> belong to the engine library as well; they are modelled by what they
  return on the values the handlers pass: the \<^verbatim>\<open>0x\<close> form of the bytes and of the
  integer, and the value with every BigInt and buffer in it replaced by that form.
\<close>

definition bytesToHex :: "byte list \<Rightarrow> string" where
  "bytesToHex bytes =
     ''0x'' @ concat (map (\<lambda>b. [digit_char (unat b div 16), digit_char (unat b mod 16)]) bytes)"

definition intToHex :: "int \<Rightarrow> string" where
  "intToHex n = ''0x'' @ (if n < 0 then ''-'' @ hex_of_nat (nat (- n)) else hex_of_nat (nat n))"

text \<open>
  The predicate tree that \<^verbatim>\<open>sql-bricks\<close> builds: \<^verbatim>\<open>sql.eq\<close>, \<^verbatim>\<open>sql.gte\<close>, \<^verbatim>\<open>sql.lte\<close>,
  \<^verbatim>\<open>sql.in\<close>, \<^verbatim>\<open>sql.or(...)\<close> and \<^verbatim>\<open>sql.and(...)\<close> over the columns the queries name:
  \<^verbatim>\<open>e.topics[k]\<close>, \<^verbatim>\<open>b.id\<close>, \<^verbatim>\<open>b.hash\<close> and \<^verbatim>\<open>t.from\<close>.
\<close>

datatype column = E_topics nat | B_id | B_hash | T_from

datatype expr =
    Eq column jsvalue
  | Gte column jsvalue
  | Lte column jsvalue
  | In column "jsvalue list"
  | Or "expr list"
  | And "expr list"

text \<open>
  \<^verbatim>\<open>sql-bricks\<close> renders a group as its operands joined by \<^verbatim>\<open>AND\<close> or \<^verbatim>\<open>OR\<close>, in
  parentheses when there are several, and a list of values in parentheses. A group with
  no operand is rendered as nothing, as in \<^verbatim>\<open>(e.topics[1] = $1 AND )\<close> or in a \<^verbatim>\<open>WHERE\<close>
  with nothing after it, and a list with no value as \<^verbatim>\<open>IN ()\<close>: the statement is not
  SQL then, and the store rejects it. \<open>renders\<close> says that no group and no list of the
  tree is empty.
\<close>

fun renders :: "expr \<Rightarrow> bool" where
  "renders (Eq c v) = True"
| "renders (Gte c v) = True"
| "renders (Lte c v) = True"
| "renders (In c vs) = (vs \<noteq> [])"
| "renders (Or es) = (es \<noteq> [] \<and> (\<forall>e \<in> set es. renders e))"
| "renders (And es) = (es \<noteq> [] \<and> (\<forall>e \<in> set es. renders e))"

text \<open>
  A row of \<^verbatim>\<open>event e LEFT JOIN transaction t LEFT JOIN block b\<close>, as far as the query
  reads it. A column of a missing join partner is NULL (\<open>None\<close>), and so is a topic slot
  beyond the event's topics (slots are numbered from 1). \<open>holds r e\<close> is what the store
  finds for the row: \<open>None\<close> when the tree does not render to SQL, and otherwise whether
  the row is selected. A comparison with NULL is not true, and the tree has no negation,
  so every such comparison is read as false.
\<close>

record log_row =
  b_id :: "int option"
  b_hash :: "byte list option"
  t_hash :: "byte list option"
  t_from :: "byte list option"
  e_topics :: "byte list list"
  e_data :: "byte list"

fun cell :: "log_row \<Rightarrow> column \<Rightarrow> jsvalue option" where
  "cell r (E_topics k) =
     (if 1 \<le> k \<and> k \<le> length (e_topics r) then Some (JBuffer (e_topics r ! (k - 1))) else None)"
| "cell r B_id = map_option JBigInt (b_id r)"
| "cell r B_hash = map_option JBuffer (b_hash r)"
| "cell r T_from = map_option JBuffer (t_from r)"

fun as_number :: "jsvalue \<Rightarrow> number option" where
  "as_number (JNumber x) = Some x"
| "as_number (JBigInt n) = Some (Fin n)"
| "as_number v = None"

fun num_le :: "number \<Rightarrow> number \<Rightarrow> bool" where
  "num_le (Fin a) (Fin b) = (a \<le> b)"
| "num_le NaN y = False"
| "num_le x NaN = False"
| "num_le NegInf y = True"
| "num_le x PosInf = True"
| "num_le x y = False"

definition compare_cell :: "(number \<Rightarrow> number \<Rightarrow> bool) \<Rightarrow> jsvalue option \<Rightarrow> jsvalue \<Rightarrow> bool" where
  "compare_cell rel c v =
     (case c of
        None \<Rightarrow> False
      | Some cv \<Rightarrow>
          (case (as_number cv, as_number v) of
             (Some x, Some y) \<Rightarrow> rel x y
           | _ \<Rightarrow> False))"

fun holds :: "log_row \<Rightarrow> expr \<Rightarrow> bool option" where
  "holds r (Eq c v) = Some (cell r c = Some v)"
| "holds r (Gte c v) = Some (compare_cell (\<lambda>x y. num_le y x) (cell r c) v)"
| "holds r (Lte c v) = Some (compare_cell num_le (cell r c) v)"
| "holds r (In c vs) = (if vs = [] then None else Some (\<exists>v \<in> set vs. cell r c = Some v))"
| "holds r (Or es) =
     (if es = [] \<or> None \<in> set (map (holds r) es) then None
      else Some (Some True \<in> set (map (holds r) es)))"
| "holds r (And es) =
     (if es = [] \<or> None \<in> set (map (holds r) es) then None
      else Some (Some False \<notin> set (map (holds r) es)))"

section \<open>The topic compiler\<close>

text \<open>
  A position of a topic filter is \<^verbatim>\<open>null\<close>, a string, or an array whose entries are
  strings or \<^verbatim>\<open>null\<close>; \<open>TOther\<close> is any other JSON value, for which \<open>compileTopics\<close>
  throws. An absent filter is \<open>None\<close>, and so is the result \<^verbatim>\<open>null\<close>.
\<close>

datatype topic = TNull | TString string | TArray "string option list" | TOther

definition topic_eq :: "nat \<Rightarrow> string \<Rightarrow> expr" where
  \<comment> \<open>\<^verbatim>\<open>sql.eq(`e.topics[${i + 1}]`, hexToBytes(topic))\<close>\<close>
  "topic_eq i topic = Eq (E_topics (i + 1)) (JBuffer (hexToBytes topic))"

fun topic_operands :: "nat \<Rightarrow> topic \<Rightarrow> error + expr list" where
  "topic_operands i TNull = Inr []"
| "topic_operands i (TString topic) = Inr [topic_eq i topic]"
| "topic_operands i (TArray ts) =
     Inr [Or (concat (map (\<lambda>t. case t of None \<Rightarrow> [] | Some t' \<Rightarrow> [topic_eq i t']) ts))]"
| "topic_operands i TOther = Inl (Error ''unreachable'')"

fun map_topics :: "nat \<Rightarrow> topic list \<Rightarrow> error + expr list" where
  \<comment> \<open>\<^verbatim>\<open>topics.map((topic, i) => ...).flat()\<close>, from index \<open>i\<close> on\<close>
  "map_topics i [] = Inr []"
| "map_topics i (t # ts) =
     (case topic_operands i t of
        Inl e \<Rightarrow> Inl e
      | Inr ops \<Rightarrow>
          (case map_topics (i + 1) ts of
             Inl e \<Rightarrow> Inl e
           | Inr rest \<Rightarrow> Inr (ops @ rest)))"

definition compileTopics :: "topic list option \<Rightarrow> error + expr option" where
  "compileTopics topics =
     (case topics of
        None \<Rightarrow> Inr None
      | Some ts \<Rightarrow>
          if length ts = 0 then Inr None
          else
            (case map_topics 0 ts of
               Inl e \<Rightarrow> Inl e
             | Inr operands \<Rightarrow> Inr (Some (And operands))))"

text \<open>
  A caller adds the compiled clause to its query only when there is one
  (\<^verbatim>\<open>if (clauses) where.push(clauses)\<close>), so \<^verbatim>\<open>null\<close> excludes no row. \<open>matches\<close> is
  what the store finds for a row under the compiled clause: \<open>None\<close> when it is rejected.
\<close>

definition matches :: "expr option \<Rightarrow> log_row \<Rightarrow> bool option" where
  "matches clauses r = (case clauses of None \<Rightarrow> Some True | Some e \<Rightarrow> holds r e)"

text \<open>
  The reading of a topic filter in the specification, to compare \<open>compileTopics\<close> with:
  position \<open>i\<close> constrains the event's topic slot \<open>i + 1\<close>; a wildcard allows anything, a
  digest must be equal to the slot, and of a list of candidates one must be.
\<close>

definition slot :: "log_row \<Rightarrow> nat \<Rightarrow> byte list option" where
  "slot r k = (if 1 \<le> k \<and> k \<le> length (e_topics r) then Some (e_topics r ! (k - 1)) else None)"

fun position_allows :: "topic \<Rightarrow> byte list option \<Rightarrow> bool" where
  "position_allows TNull s = True"
| "position_allows (TString d) s = (s = Some (hexToBytes d))"
| "position_allows (TArray cs) s = (\<exists>c \<in> set cs. case c of None \<Rightarrow> False | Some d \<Rightarrow> s = Some (hexToBytes d))"
| "position_allows TOther s = False"


text \<open>
  The filters whose compiled tree has an operand in every group: some position is not a
  wildcard, and every list of candidates has a digest.
\<close>

definition has_digest :: "topic \<Rightarrow> bool" where
  "has_digest t = (case t of TArray cs \<Rightarrow> (\<exists>c \<in> set cs. c \<noteq> None) | _ \<Rightarrow> True)"


section \<open>The query server\<close>

definition resolveBlockSpec :: "jsvalue \<Rightarrow> string option \<Rightarrow> error + jsvalue" where
  "resolveBlockSpec latestBlockID blockSpec =
     (case blockSpec of
        None \<Rightarrow> Inr latestBlockID
      | Some spec \<Rightarrow>
          if spec = ''earliest'' then Inr (JNumber (Fin 0))
          else if spec = ''latest'' then Inr latestBlockID
          else if spec = ''pending'' then Inr latestBlockID
          else
            let blockID = parseInt16 spec
            in if blockID = NaN then Inl (Error (''invalid block ID: '' @ spec))
               else Inr (JNumber blockID))"

text \<open>
  The store is what \<open>_query\<close> reaches: it answers a statement with rows or fails. A
  statement is SQL text with its arguments, or one of the two statements assembled with
  the query builder. A handler's result comes with the statements it sent, in order.
\<close>

datatype query =
    Sql string "jsvalue list"
  | Select_filter_type number
  | Select_logs expr

type_synonym row = "(string \<times> jsvalue) list"

type_synonym store = "query \<Rightarrow> error + row list"

type_synonym reply = "(error + jsvalue) \<times> query list"

definition run_query :: "store \<Rightarrow> query \<Rightarrow> (row list \<Rightarrow> reply) \<Rightarrow> reply" where
  \<comment> \<open>\<^verbatim>\<open>await this._query(q)\<close>, then the rest of the handler on the rows\<close>
  "run_query db q rest =
     (case db q of
        Inl e \<Rightarrow> (Inl e, [q])
      | Inr rows \<Rightarrow> (case rest rows of (result, sent) \<Rightarrow> (result, q # sent)))"

definition try_query :: "store \<Rightarrow> query \<Rightarrow> (row list \<Rightarrow> jsvalue) \<Rightarrow> reply" where
  \<comment> \<open>\<^verbatim>\<open>try { const { rows } = await this._query(q); return f(rows) } catch { return null }\<close>\<close>
  "try_query db q f =
     (case db q of
        Inl e \<Rightarrow> (Inr JNull, [q])
      | Inr rows \<Rightarrow> (Inr (f rows), [q]))"

definition field :: "string \<Rightarrow> row \<Rightarrow> jsvalue" where
  "field k r = (case map_of r k of None \<Rightarrow> JUndefined | Some v \<Rightarrow> v)"

fun set_field :: "string \<Rightarrow> jsvalue \<Rightarrow> row \<Rightarrow> row" where
  "set_field k v [] = [(k, v)]"
| "set_field k v ((k', v') # r) = (if k = k' then (k, v) # r else (k', v') # set_field k v r)"

definition first_row :: "row list \<Rightarrow> (row \<Rightarrow> reply) \<Rightarrow> reply" where
  \<comment> \<open>the destructuring \<^verbatim>\<open>const { rows: [{ x }] } = ...\<close>, which throws when there is no row\<close>
  "first_row rows rest =
     (case rows of
        [] \<Rightarrow> (Inl (TypeError ''Cannot destructure property of undefined''), [])
      | r # _ \<Rightarrow> rest r)"

fun exportJSON :: "jsvalue \<Rightarrow> jsvalue" where
  "exportJSON (JBigInt n) = JString (intToHex n)"
| "exportJSON (JBuffer b) = JString (bytesToHex b)"
| "exportJSON (JArray vs) = JArray (map exportJSON vs)"
| "exportJSON (JObject kvs) = JObject (map (\<lambda>(k, v). (k, exportJSON v)) kvs)"
| "exportJSON v = v"

definition export_rows :: "row list \<Rightarrow> jsvalue" where
  "export_rows rows = exportJSON (JArray (map JObject rows))"

definition buffers_to_hex :: "row list \<Rightarrow> reply" where
  \<comment> \<open>\<^verbatim>\<open>rows.flatMap((row) => Object.values(row)).map(bytesToHex)\<close>\<close>
  "buffers_to_hex rows =
     (let values = concat (map (map snd) rows) in
      if list_all (\<lambda>v. case v of JBuffer b \<Rightarrow> True | _ \<Rightarrow> False) values
      then (Inr (JArray (map (\<lambda>v. case v of JBuffer b \<Rightarrow> JString (bytesToHex b) | _ \<Rightarrow> v) values)), [])
      else (Inl (TypeError ''not a buffer''), []))"

definition filter_results :: "string \<Rightarrow> store \<Rightarrow> string \<Rightarrow> reply" where
  \<comment> \<open>the common body of \<open>eth_getFilterChanges\<close> and \<open>eth_getFilterLogs\<close>, which differ in
      the name of the store function only\<close>
  "filter_results name db filterID =
     (let filterID' = parseInt16 filterID in
      if filterID' = Fin 0 then (Inr (JArray []), [])
      else
        run_query db (Select_filter_type filterID') (\<lambda>rows.
          first_row rows (\<lambda>r.
            let type = field ''type'' r in
            if type = JString ''block'' then
              run_query db (Sql (''SELECT * FROM '' @ name @ ''_block($1::bigint)'') [JNumber filterID'])
                buffers_to_hex
            else if type = JString ''event'' then
              run_query db (Sql (''SELECT * FROM '' @ name @ ''_event($1::bigint)'') [JNumber filterID'])
                (\<lambda>rows. (Inr (export_rows rows), []))
            else (Inr (JArray []), []))))"

definition eth_getFilterChanges :: "store \<Rightarrow> string \<Rightarrow> reply" where
  "eth_getFilterChanges db filterID = filter_results ''eth_getFilterChanges'' db filterID"

definition eth_getFilterLogs :: "store \<Rightarrow> string \<Rightarrow> reply" where
  "eth_getFilterLogs db filterID = filter_results ''eth_getFilterLogs'' db filterID"

definition eth_uninstallFilter :: "store \<Rightarrow> string \<Rightarrow> reply" where
  "eth_uninstallFilter db filterID =
     (let filterID' = parseInt16 filterID in
      if filterID' = Fin 0 then (Inr (JBool True), [])
      else
        run_query db
          (Sql ''SELECT eth_uninstallFilter($1::inet, $2::bigint) AS found''
             [JString ''0.0.0.0'', JNumber filterID'])
          (\<lambda>rows. first_row rows (\<lambda>r. (Inr (field ''found'' r), []))))"

definition starts_with_0x :: "string \<Rightarrow> bool" where
  "starts_with_0x s = (take 2 s = ''0x'')"

definition block_result :: "row list \<Rightarrow> jsvalue" where
  \<comment> \<open>\<^verbatim>\<open>exportJSON(rows.map((row) => { row['uncles'] = []; row['transactions'] = []; return row; }))\<close>\<close>
  "block_result rows =
     export_rows (map (\<lambda>r. set_field ''transactions'' (JArray []) (set_field ''uncles'' (JArray []) r)) rows)"

definition eth_getBlockByHash :: "store \<Rightarrow> string \<Rightarrow> reply" where
  "eth_getBlockByHash db blockHash =
     (let blockHash' = (if starts_with_0x blockHash then JBuffer (hexToBytes blockHash) else JString blockHash)
      in try_query db (Sql ''SELECT * FROM eth_getBlockByHash($1)'' [blockHash']) block_result)"

definition eth_getBlockByNumber :: "store \<Rightarrow> string \<Rightarrow> reply" where
  "eth_getBlockByNumber db blockNumber =
     (let blockNumber' = (if starts_with_0x blockNumber then JNumber (parseInt16 blockNumber) else JString blockNumber)
      in try_query db (Sql ''SELECT * FROM eth_getBlockByNumber($1)'' [blockNumber']) block_result)"

definition eth_getTransactionByHash :: "store \<Rightarrow> string \<Rightarrow> reply" where
  "eth_getTransactionByHash db transactionHash =
     (let transactionHash' = JBuffer (hexToBytes transactionHash)
      in try_query db (Sql ''SELECT * FROM eth_getTransactionByHash($1)'' [transactionHash'])
           (\<lambda>rows. if length rows > 0 then exportJSON (JObject (hd rows)) else JNull))"

text \<open>
  \<open>eth_getLogs\<close>: the filter options of the request, and the clauses of the query's
  \<^verbatim>\<open>WHERE\<close>. \<^verbatim>\<open>Address.parse\<close> belongs to the engine library and is a parameter:
  \<open>None\<close> where its result cannot be unwrapped.
\<close>

datatype address_arg = One string | Many "string list"

record filter_options =
  blockHash :: "string option"
  fromBlock :: "string option"
  toBlock :: "string option"
  address :: "address_arg option"
  topics :: "topic list option"

definition block_clauses :: "jsvalue \<Rightarrow> filter_options \<Rightarrow> error + expr list" where
  "block_clauses latestBlockID opts =
     (case blockHash opts of
        Some h \<Rightarrow> Inr [Eq B_hash (JBuffer (hexToBytes h))]
      | None \<Rightarrow>
          (case resolveBlockSpec latestBlockID (fromBlock opts) of
             Inl e \<Rightarrow> Inl e
           | Inr fromBlock' \<Rightarrow>
               (case resolveBlockSpec latestBlockID (toBlock opts) of
                  Inl e \<Rightarrow> Inl e
                | Inr toBlock' \<Rightarrow>
                    Inr ((if truthy fromBlock' then [Gte B_id fromBlock'] else []) @
                         (if truthy toBlock' then [Lte B_id toBlock'] else [])))))"

definition address_clauses :: "(string \<Rightarrow> byte list option) \<Rightarrow> filter_options \<Rightarrow> error + expr list" where
  "address_clauses parse opts =
     (case address opts of
        None \<Rightarrow> Inr []
      | Some a \<Rightarrow>
          if a = One [] then Inr []
          else
            (case those (map parse (case a of Many l \<Rightarrow> l | One s \<Rightarrow> [s])) of
               None \<Rightarrow> Inl (Error ''called unwrap on an error'')
             | Some addresses \<Rightarrow> Inr [In T_from (map JBuffer addresses)]))"

definition topics_clauses :: "filter_options \<Rightarrow> error + expr list" where
  "topics_clauses opts =
     (case topics opts of
        None \<Rightarrow> Inr []
      | Some ts \<Rightarrow>
          (case compileTopics (Some ts) of
             Inl e \<Rightarrow> Inl e
           | Inr None \<Rightarrow> Inr []
           | Inr (Some clauses) \<Rightarrow> Inr [clauses]))"

definition where_clauses ::
  "(string \<Rightarrow> byte list option) \<Rightarrow> jsvalue \<Rightarrow> filter_options \<Rightarrow> error + expr list" where
  "where_clauses parse latestBlockID opts =
     (case block_clauses latestBlockID opts of
        Inl e \<Rightarrow> Inl e
      | Inr bs \<Rightarrow>
          (case address_clauses parse opts of
             Inl e \<Rightarrow> Inl e
           | Inr as \<Rightarrow>
               (case topics_clauses opts of
                  Inl e \<Rightarrow> Inl e
                | Inr ts \<Rightarrow> Inr (bs @ as @ ts))))"

definition eth_getLogs :: "(string \<Rightarrow> byte list option) \<Rightarrow> store \<Rightarrow> filter_options \<Rightarrow> reply" where
  "eth_getLogs parse db opts =
     run_query db (Sql ''SELECT eth_blockNumber() AS id'' []) (\<lambda>rows.
       first_row rows (\<lambda>r.
         case where_clauses parse (field ''id'' r) opts of
           Inl e \<Rightarrow> (Inl e, [])
         | Inr clauses \<Rightarrow>
             run_query db (Select_logs (And clauses)) (\<lambda>rows. (Inr (export_rows rows), []))))"

section \<open>The block indexer\<close>

text \<open>
  A block as the engine delivers it: its number, its transactions, and \<open>header\<close> for the
  other metadata, which \<open>indexBlock\<close> copies into the row column by column. The store of
  the indexer is its two tables, in insertion order; the statements of the indexer are
  taken to succeed (a failing one ends the process). A transaction row holds the height
  \<open>indexBlock\<close> was called with and the index in the block.
\<close>

record ('h, 't) block =
  number :: int
  header :: 'h
  transactions :: "'t list"

record ('h, 't) tables =
  block_table :: "(int \<times> 'h) list"
  transaction_table :: "(int \<times> nat \<times> 't) list"

text \<open>
  \<open>blockID\<close> is a Number; it holds an integer throughout. What the indexer does is
  recorded in \<open>trace\<close>: a request to the engine for a height, a wait of so many
  milliseconds, and the insertions. The engine is an oracle: \<open>getBlock k h\<close> is the
  answer to the \<open>k\<close>-th request when it asks for height \<open>h\<close>, \<open>None\<close> when
  \<^verbatim>\<open>proxy.isErr()\<close>. \<open>calls\<close> counts the requests.
\<close>

datatype action = Fetch int | Sleep nat | Insert_block int | Insert_transaction int nat

record ('h, 't) indexer =
  pg :: "('h, 't) tables"
  blockID :: int
  calls :: nat
  trace :: "action list"

type_synonym ('h, 't) engine = "nat \<Rightarrow> int \<Rightarrow> ('h, 't) block option"

definition insert_block :: "('h, 't) block \<Rightarrow> ('h, 't) indexer \<Rightarrow> ('h, 't) indexer" where
  \<comment> \<open>\<^verbatim>\<open>sql.insert('block', { id: block.number, ... })\<close>\<close>
  "insert_block b s =
     s\<lparr>pg := (pg s)\<lparr>block_table := block_table (pg s) @ [(number b, header b)]\<rparr>,
       trace := trace s @ [Insert_block (number b)]\<rparr>"

definition indexTransaction :: "int \<Rightarrow> nat \<Rightarrow> 't \<Rightarrow> ('h, 't) indexer \<Rightarrow> ('h, 't) indexer" where
  "indexTransaction h transactionIndex transaction s =
     s\<lparr>pg := (pg s)\<lparr>transaction_table :=
                       transaction_table (pg s) @ [(h, transactionIndex, transaction)]\<rparr>,
       trace := trace s @ [Insert_transaction h transactionIndex]\<rparr>"

fun index_transactions :: "int \<Rightarrow> nat \<Rightarrow> 't list \<Rightarrow> ('h, 't) indexer \<Rightarrow> ('h, 't) indexer" where
  \<comment> \<open>the loop over \<^verbatim>\<open>block.transactions\<close>, with \<open>transactionIndex\<close> counting up\<close>
  "index_transactions h transactionIndex [] s = s"
| "index_transactions h transactionIndex (t # ts) s =
     index_transactions h (transactionIndex + 1) ts (indexTransaction h transactionIndex t s)"

text \<open>
  \<open>indexBlock\<close> loops until the engine delivers the block. The fuel is the number of
  requests the run still makes: with the fuel used up inside the loop the result is the
  state reached and \<open>None\<close> (the call has not returned); a call that returns gives the
  fuel left over.
\<close>

fun indexBlock ::
  "('h, 't) engine \<Rightarrow> nat \<Rightarrow> int \<Rightarrow> ('h, 't) indexer \<Rightarrow> ('h, 't) indexer \<times> nat option" where
  "indexBlock getBlock 0 h s = (s, None)"
| "indexBlock getBlock (Suc fuel) h s =
     (let s1 = s\<lparr>calls := calls s + 1, trace := trace s @ [Fetch h]\<rparr> in
      case getBlock (calls s) h of
        None \<Rightarrow> indexBlock getBlock fuel h (s1\<lparr>trace := trace s1 @ [Sleep 100]\<rparr>)
      | Some b \<Rightarrow> (index_transactions h 0 (transactions b) (insert_block b s1), Some fuel))"

definition increment :: "int \<Rightarrow> int" where
  \<comment> \<open>\<^verbatim>\<open>this.blockID += 1\<close> on a Number\<close>
  "increment n = round_double (n + 1)"

function start_loop :: "('h, 't) engine \<Rightarrow> nat \<Rightarrow> ('h, 't) indexer \<Rightarrow> ('h, 't) indexer" where
  "start_loop getBlock fuel s =
     (case indexBlock getBlock fuel (blockID s) s of
        (s', None) \<Rightarrow> s'
      | (s', Some fuel') \<Rightarrow> start_loop getBlock fuel' (s'\<lparr>blockID := increment (blockID s')\<rparr>))"
  by pat_completeness auto
termination
proof (relation "measure (\<lambda>(getBlock, fuel, s). fuel)")
  show "wf (measure (\<lambda>(getBlock :: ('h, 't) engine, fuel :: nat, s :: ('h, 't) indexer). fuel))"
    by simp
next
  fix getBlock :: "('h, 't) engine" and fuel fuel' :: nat and s s' :: "('h, 't) indexer" and x
  assume a: "(s', x) = indexBlock getBlock fuel (blockID s) s" "x = Some fuel'"
  have "indexBlock getBlock k h t = (t', Some k') \<Longrightarrow> k' < k" for k k' h and t t' :: "('h, 't) indexer"
    by (induction k arbitrary: t) (auto simp: Let_def split: option.splits intro: less_SucI)
  with a have "fuel' < fuel" by metis
  then show "((getBlock, fuel', s'\<lparr>blockID := increment (blockID s')\<rparr>), (getBlock, fuel, s))
      \<in> measure (\<lambda>(getBlock, fuel, s). fuel)"
    by simp
qed

declare start_loop.simps [simp del]

text \<open>
  \<open>start\<close> asks the store for \<^verbatim>\<open>MAX(id)::int\<close>: NULL for an empty table, and an
  error of the store when the maximum is no 32-bit integer. It never returns; the model
  gives the state when the fuel is used up.
\<close>

fun sql_max :: "int list \<Rightarrow> int option" where
  "sql_max [] = None"
| "sql_max (x # xs) = (case sql_max xs of None \<Rightarrow> Some x | Some m \<Rightarrow> Some (max x m))"

definition cast_int4 :: "int \<Rightarrow> error + int" where
  "cast_int4 v =
     (if - (2 ^ 31) \<le> v \<and> v < 2 ^ 31 then Inr v else Inl (StoreError ''integer out of range''))"

definition resume_at :: "('h, 't) tables \<Rightarrow> error + int" where
  \<comment> \<open>\<^verbatim>\<open>this.blockID = maxID === null ? 0 : maxID + 1\<close>\<close>
  "resume_at d =
     (case sql_max (map fst (block_table d)) of
        None \<Rightarrow> Inr 0
      | Some m \<Rightarrow> (case cast_int4 m of Inl e \<Rightarrow> Inl e | Inr maxID \<Rightarrow> Inr (round_double (maxID + 1))))"

definition fresh :: "('h, 't) tables \<Rightarrow> int \<Rightarrow> ('h, 't) indexer" where
  \<comment> \<open>the indexer as \<open>start\<close> enters its loop\<close>
  "fresh d b = \<lparr>pg = d, blockID = b, calls = 0, trace = []\<rparr>"

definition start :: "('h, 't) engine \<Rightarrow> nat \<Rightarrow> ('h, 't) tables \<Rightarrow> error + ('h, 't) indexer" where
  "start getBlock fuel d =
     (case resume_at d of
        Inl e \<Rightarrow> Inl e
      | Inr b \<Rightarrow> Inr (start_loop getBlock fuel (fresh d b)))"

definition heights :: "('h, 't) tables \<Rightarrow> int list" where
  "heights d = map fst (block_table d)"

definition empty_tables :: "('h, 't) tables" where
  "empty_tables = \<lparr>block_table = [], transaction_table = []\<rparr>"

text \<open>An engine answers faithfully when a block it delivers is the one asked for.\<close>

definition faithful :: "('h, 't) engine \<Rightarrow> bool" where
  "faithful getBlock = (\<forall>k h b. getBlock k h = Some b \<longrightarrow> number b = h)"

section \<open>Notions and example data for the properties\<close>

definition example_row :: "byte list list \<Rightarrow> log_row" where
  \<comment> \<open>a joined row of an event with the given topics\<close>
  "example_row ts =
     \<lparr>b_id = Some 1, b_hash = Some [1], t_hash = Some [3], t_from = Some [2], e_topics = ts,
      e_data = []\<rparr>"

text \<open>
  A store of log rows, for \<open>eth_getLogs\<close>. It rejects a statement that does not render
  to SQL, and answers the other ones with the columns that \<open>eth_getLogs\<close> selects, for
  the rows that the clauses hold of.
\<close>

definition nullable :: "('a \<Rightarrow> jsvalue) \<Rightarrow> 'a option \<Rightarrow> jsvalue" where
  "nullable f x = (case x of None \<Rightarrow> JNull | Some v \<Rightarrow> f v)"

definition result_row :: "log_row \<Rightarrow> row" where
  "result_row r =
     [(''blockNumber'', nullable JBigInt (b_id r)),
      (''blockHash'', nullable JBuffer (b_hash r)),
      (''transactionIndex'', JNumber (Fin 0)),
      (''transactionHash'', nullable JBuffer (t_hash r)),
      (''logIndex'', JNumber (Fin 0)),
      (''address'', nullable JBuffer (t_from r)),
      (''topics'', JArray (map JBuffer (e_topics r))),
      (''data'', JBuffer (e_data r)),
      (''removed'', JBool False)]"

definition log_store :: "int \<Rightarrow> log_row list \<Rightarrow> store" where
  \<comment> \<open>Modelled from the spec: the store's function \<^verbatim>\<open>eth_blockNumber()\<close> is not part of
      the sources; it answers the store's current maximum block height, \<open>latest\<close> here.\<close>
  "log_store latest rows q =
     (case q of
        Sql text args \<Rightarrow>
          if text = ''SELECT eth_blockNumber() AS id'' \<and> args = []
          then Inr [[(''id'', JBigInt latest)]]
          else Inl (StoreError ''unknown statement'')
      | Select_filter_type filterID \<Rightarrow> Inr []
      | Select_logs e \<Rightarrow>
          if renders e then Inr (map result_row (filter (\<lambda>r. holds r e = Some True) rows))
          else Inl (StoreError ''syntax error''))"

definition empty_store :: store where
  \<comment> \<open>a store in which no statement finds a row\<close>
  "empty_store q = Inr []"

definition failing_store :: store where
  \<comment> \<open>a store that raises on every statement\<close>
  "failing_store q = Inl (StoreError ''query returned no rows'')"

definition first_sent :: "reply \<Rightarrow> query option" where
  \<comment> \<open>the first statement a handler sent to the store, if it sent any\<close>
  "first_sent r = (case snd r of [] \<Rightarrow> None | q # _ \<Rightarrow> Some q)"

definition no_block_constraint :: "filter_options \<Rightarrow> bool" where
  "no_block_constraint opts = (blockHash opts = None \<and> fromBlock opts = None \<and> toBlock opts = None)"

definition no_constraint :: filter_options where
  "no_constraint = \<lparr>blockHash = None, fromBlock = None, toBlock = None, address = None, topics = None\<rparr>"

definition gap_free :: "('h, 't) tables \<Rightarrow> bool" where
  \<comment> \<open>the recorded heights are \<open>0, 1, ..., N - 1\<close>, in this order, for the number \<open>N\<close> of
      recorded blocks\<close>
  "gap_free d = (heights d = map int [0..<length (block_table d)])"

definition always_ok :: "(unit, unit) engine" where
  \<comment> \<open>an engine that has every block: no request fails\<close>
  "always_ok k h = Some \<lparr>number = h, header = (), transactions = []\<rparr>"

definition third_time :: "(unit, unit) engine" where
  \<comment> \<open>an engine whose every third answer is the block (of two transactions), after two
      failures\<close>
  "third_time k h =
     (if k mod 3 = 2 then Some \<lparr>number = h, header = (), transactions = [(), ()]\<rparr> else None)"

definition after_long_run :: "(unit, unit) indexer" where
  \<comment> \<open>the indexer after \<open>2 ^ 31 + 1\<close> requests to \<open>always_ok\<close>, from the empty store\<close>
  "after_long_run = start_loop always_ok 2147483649 (fresh empty_tables 0)"

definition counting :: "('h, 't) indexer \<Rightarrow> bool" where
  \<comment> \<open>the store is gap-free and the next height to index is the number of recorded blocks\<close>
  "counting s = (gap_free (pg s) \<and> blockID s = int (length (block_table (pg s))))"

definition polled :: "nat \<Rightarrow> int \<Rightarrow> ('h, 't) indexer \<Rightarrow> ('h, 't) indexer" where
  \<comment> \<open>the indexer after \<open>n\<close> requests for height \<open>h\<close>, each followed by a wait of 100 ms;
      the store and the height to index are as before\<close>
  "polled n h s =
     s\<lparr>calls := calls s + n, trace := trace s @ concat (replicate n [Fetch h, Sleep 100])\<rparr>"

definition persisted :: "int \<Rightarrow> ('h, 't) block \<Rightarrow> ('h, 't) indexer \<Rightarrow> ('h, 't) indexer" where
  \<comment> \<open>the indexer after one more request for height \<open>h\<close>, answered with the block \<open>b\<close>,
      and the insertion of the block and its transactions\<close>
  "persisted h b s =
     index_transactions h 0 (transactions b)
       (insert_block b (s\<lparr>calls := calls s + 1, trace := trace s @ [Fetch h]\<rparr>))"

section \<open>Properties of the topic compiler\<close>


lemma None_in_image: "(None \<in> f ` S) = (\<exists>x \<in> S. f x = None)"
  by (auto simp: image_iff) (metis)+

lemma holds_None_iff: "holds r e = None \<longleftrightarrow> \<not> renders e"
proof (induction e)
  case (Or es)
  then have "(\<exists>e \<in> set es. holds r e = None) = (\<exists>e \<in> set es. \<not> renders e)" by simp
  then show ?case by (auto simp: None_in_image)
next
  case (And es)
  then have "(\<exists>e \<in> set es. holds r e = None) = (\<exists>e \<in> set es. \<not> renders e)" by simp
  then show ?case by (auto simp: None_in_image)
qed simp_all

lemma holds_topic_eq: "holds r (topic_eq i t) = Some (slot r (Suc i) = Some (hexToBytes t))"
  by (auto simp: topic_eq_def slot_def)

lemma holds_candidates:
  "holds r (Or (concat (map (\<lambda>t. case t of None \<Rightarrow> [] | Some t' \<Rightarrow> [topic_eq i t']) cs)))
     = (if has_digest (TArray cs) then Some (position_allows (TArray cs) (slot r (Suc i))) else None)"
proof -
  let ?ops = "concat (map (\<lambda>t. case t of None \<Rightarrow> [] | Some t' \<Rightarrow> [topic_eq i t']) cs)"
  have ops: "?ops = map (topic_eq i) (List.map_filter id cs)"
    by (induction cs) (auto simp: List.map_filter_simps split: option.splits)
  have ds: "set (List.map_filter id cs) = {d. Some d \<in> set cs}"
    by (induction cs) (auto simp: List.map_filter_simps split: option.splits)
  have img: "holds r ` set ?ops = (\<lambda>d. Some (slot r (Suc i) = Some (hexToBytes d))) ` {d. Some d \<in> set cs}"
    unfolding ops by (simp add: image_image holds_topic_eq ds)
  have empty: "?ops = [] \<longleftrightarrow> \<not> has_digest (TArray cs)"
    by (induction cs) (auto simp: has_digest_def split: option.splits)
  have true: "Some True \<in> holds r ` set ?ops \<longleftrightarrow> position_allows (TArray cs) (slot r (Suc i))"
    unfolding img by (auto split: option.splits)
  have none: "None \<notin> holds r ` set ?ops"
    unfolding img by auto
  from empty true none show ?thesis by simp
qed

lemma topic_operands_holds:
  assumes "topic_operands i t = Inr ops"
  shows "(ops = [] \<longleftrightarrow> t = TNull)
    \<and> (None \<in> holds r ` set ops \<longleftrightarrow> \<not> has_digest t)
    \<and> (Some False \<in> holds r ` set ops \<longleftrightarrow> has_digest t \<and> \<not> position_allows t (slot r (Suc i)))"
proof (cases t)
  case TNull
  with assms show ?thesis by (simp add: has_digest_def)
next
  case (TString d)
  with assms show ?thesis by (auto simp: has_digest_def holds_topic_eq)
next
  case (TArray cs)
  with assms have "ops = [Or (concat (map (\<lambda>t. case t of None \<Rightarrow> [] | Some t' \<Rightarrow> [topic_eq i t']) cs))]"
    by simp
  then have "holds r ` set ops
      = {if has_digest (TArray cs) then Some (position_allows (TArray cs) (slot r (Suc i))) else None}"
    using holds_candidates [of r i cs] by simp
  with TArray \<open>ops = _\<close> show ?thesis by auto
next
  case TOther
  with assms show ?thesis by simp
qed

lemma topic_operands_total: "t \<noteq> TOther \<Longrightarrow> \<exists>ops. topic_operands i t = Inr ops"
  by (cases t) auto

lemma map_topics_total: "TOther \<notin> set ts \<Longrightarrow> \<exists>ops. map_topics i ts = Inr ops"
proof (induction ts arbitrary: i)
  case Nil
  then show ?case by simp
next
  case (Cons t ts)
  then obtain ops rest where "topic_operands i t = Inr ops" "map_topics (i + 1) ts = Inr rest"
    using topic_operands_total [of t i] by (metis list.set_intros(1,2))
  then show ?case by simp
qed

lemma map_topics_holds:
  "map_topics i ts = Inr ops \<Longrightarrow>
     (ops = [] \<longleftrightarrow> (\<forall>t \<in> set ts. t = TNull))
     \<and> (None \<in> holds r ` set ops \<longleftrightarrow> (\<exists>t \<in> set ts. \<not> has_digest t))
     \<and> (Some False \<in> holds r ` set ops \<longleftrightarrow>
          (\<exists>j < length ts. has_digest (ts ! j) \<and> \<not> position_allows (ts ! j) (slot r (Suc (i + j)))))"
proof (induction ts arbitrary: i ops)
  case Nil
  then show ?case by simp
next
  case (Cons t ts)
  from Cons.prems obtain o1 rest where
    o1: "topic_operands i t = Inr o1" and rest: "map_topics (i + 1) ts = Inr rest"
    and ops: "ops = o1 @ rest"
    by (auto split: sum.splits)
  note h = topic_operands_holds [OF o1, of r]
  note ih = Cons.IH [OF rest]
  have a: "(ops = [] \<longleftrightarrow> (\<forall>t' \<in> set (t # ts). t' = TNull))"
    using h ih ops by simp
  have b: "(None \<in> holds r ` set ops \<longleftrightarrow> (\<exists>t' \<in> set (t # ts). \<not> has_digest t'))"
    using h ih ops by (simp add: image_Un)
  have "(Some False \<in> holds r ` set ops) \<longleftrightarrow>
      (has_digest t \<and> \<not> position_allows t (slot r (Suc i)))
      \<or> (\<exists>j < length ts. has_digest (ts ! j) \<and> \<not> position_allows (ts ! j) (slot r (Suc (Suc i + j))))"
    using h ih ops by (simp add: image_Un)
  also have "\<dots> \<longleftrightarrow> (\<exists>j < length (t # ts). has_digest ((t # ts) ! j)
      \<and> \<not> position_allows ((t # ts) ! j) (slot r (Suc (i + j))))"
    by (auto simp: less_Suc_eq_0_disj)
  finally show ?case using a b by blast
qed



lemmas logs_eval = eth_getLogs_def run_query_def first_row_def log_store_def field_def
  where_clauses_def block_clauses_def address_clauses_def topics_clauses_def
  resolveBlockSpec_def no_constraint_def

text \<open>
  Claim C3. For an absent and for an empty filter \<open>compileTopics\<close> returns \<^verbatim>\<open>null\<close>, the
  signal for no constraint, which excludes no row. A position that is an empty list of
  candidates compiles to \<^verbatim>\<open>sql.or()\<close> with no operand: the tree of such a filter does not
  render to SQL. For the topics \<open>[A, []]\<close> \<open>eth_getLogs\<close> sends the statement, the store
  rejects it, and the request fails instead of matching no event.
\<close>

theorem compileTopics_empty_candidates:
  "compileTopics None = Inr None \<and> compileTopics (Some []) = Inr None
   \<and> matches None r = Some True
   \<and> compileTopics (Some [TString ''0xaa'', TArray []])
       = Inr (Some (And [topic_eq 0 ''0xaa'', Or []]))
   \<and> \<not> renders (And [topic_eq 0 ''0xaa'', Or []])
   \<and> eth_getLogs parse (log_store 7 rows) (no_constraint\<lparr>topics := Some [TString ''0xaa'', TArray []]\<rparr>)
       = (Inl (StoreError ''syntax error''),
          [Sql ''SELECT eth_blockNumber() AS id'' [],
           Select_logs (And [Gte B_id (JBigInt 7), Lte B_id (JBigInt 7),
                             And [topic_eq 0 ''0xaa'', Or []]])])
   \<and> (TOther \<notin> set ts \<and> TArray [] \<in> set ts \<longrightarrow>
        (\<exists>c. compileTopics (Some ts) = Inr (Some c) \<and> \<not> renders c
             \<and> (\<forall>r'. matches (Some c) r' = None)))"
proof -
  have general: "\<exists>c. compileTopics (Some ts) = Inr (Some c) \<and> \<not> renders c
      \<and> (\<forall>r'. matches (Some c) r' = None)"
    if ts: "TOther \<notin> set ts" and e: "TArray [] \<in> set ts"
  proof -
    from ts obtain ops where ops: "map_topics 0 ts = Inr ops"
      using map_topics_total by blast
    from e have "\<exists>t \<in> set ts. \<not> has_digest t"
      by (auto simp: has_digest_def intro!: bexI [of _ "TArray []"])
    with map_topics_holds [OF ops] have "None \<in> holds r' ` set ops" for r'
      by blast
    then have none: "holds r' (And ops) = None" for r'
      by simp
    then have "\<not> renders (And ops)"
      using holds_None_iff [of r "And ops"] by simp
    moreover from e have "ts \<noteq> []" by auto
    ultimately show ?thesis using ops none by (simp add: compileTopics_def matches_def)
  qed
  have logs: "eth_getLogs parse (log_store 7 rows) (no_constraint\<lparr>topics := Some [TString ''0xaa'', TArray []]\<rparr>)
       = (Inl (StoreError ''syntax error''),
          [Sql ''SELECT eth_blockNumber() AS id'' [],
           Select_logs (And [Gte B_id (JBigInt 7), Lte B_id (JBigInt 7),
                             And [topic_eq 0 ''0xaa'', Or []]])])"
    by (simp add: logs_eval compileTopics_def)
  from general logs show ?thesis
    by (simp add: compileTopics_def matches_def)
qed

theorem compileTopics_empty_candidates_witness:
  "compileTopics None = Inr None \<and> compileTopics (Some []) = Inr None
   \<and> (\<exists>c. compileTopics (Some [TString ''0xaa'', TArray []]) = Inr (Some c) \<and> \<not> renders c
          \<and> matches (Some c) (example_row [[0xaa], [0xbb]]) = None)
   \<and> eth_getLogs Map.empty (log_store 7 [example_row [[0xaa], [0xbb]]])
         (no_constraint\<lparr>topics := Some [TString ''0xaa'', TArray []]\<rparr>)
       = (Inl (StoreError ''syntax error''),
          [Sql ''SELECT eth_blockNumber() AS id'' [],
           Select_logs (And [Gte B_id (JBigInt 7), Lte B_id (JBigInt 7),
                             And [topic_eq 0 ''0xaa'', Or []]])])"
  using compileTopics_empty_candidates
    [of "example_row [[0xaa], [0xbb]]" Map.empty "[example_row [[0xaa], [0xbb]]]"
      "[TString ''0xaa'', TArray []]"]
  by auto

section \<open>Properties of numbers and block specifiers\<close>

lemma digit_of_digit_char: "d < 16 \<Longrightarrow> digit_of (digit_char d) = Some d"
proof -
  have "list_all (\<lambda>d. digit_of (digit_char d) = Some d) [0..<16]"
    by (simp add: upt_rec digit_of_def digit_char_def)
  moreover assume "d < 16"
  ultimately show ?thesis by (simp add: list_all_iff)
qed

lemma is_digit_digit_char: "d < r \<Longrightarrow> r \<le> 16 \<Longrightarrow> is_digit r (digit_char d)"
  by (simp add: is_digit_def digit_of_digit_char)

lemma radix_value_snoc:
  "radix_value r (z @ [c]) = r * radix_value r z + (case digit_of c of Some d \<Rightarrow> d | None \<Rightarrow> 0)"
  by (simp add: radix_value_def)

lemma radix_string_props:
  "2 \<le> r \<Longrightarrow> r \<le> 16 \<Longrightarrow>
     radix_string r n \<noteq> [] \<and> list_all (is_digit r) (radix_string r n)
     \<and> radix_value r (radix_string r n) = n"
proof (induction r n rule: radix_string.induct)
  case (1 radix n)
  show ?case
  proof (cases "n < radix")
    case True
    with 1 show ?thesis
      by (subst (1 2 3) radix_string.simps)
         (simp add: is_digit_digit_char radix_value_def digit_of_digit_char)
  next
    case False
    with 1 have IH: "list_all (is_digit radix) (radix_string radix (n div radix))"
      "radix_value radix (radix_string radix (n div radix)) = n div radix"
      by auto
    from "1.prems" have "0 < radix" by simp
    then have m1: "n mod radix < radix" by simp
    with "1.prems" have m2: "n mod radix < 16" by linarith
    note m = m1 m2
    from False 1 m IH show ?thesis
      by (subst (1 2 3) radix_string.simps)
         (simp add: radix_value_snoc is_digit_digit_char digit_of_digit_char)
  qed
qed

lemma bit_length_le: "n < 2 ^ k \<Longrightarrow> bit_length n \<le> k"
proof (induction k arbitrary: n)
  case 0
  then show ?case by (simp add: bit_length.simps)
next
  case (Suc k)
  then have "n div 2 < 2 ^ k" by auto
  with Suc.IH have "bit_length (n div 2) \<le> k" by blast
  then show ?case by (subst bit_length.simps) simp
qed

lemma round53_exact: "n < 2 ^ 53 \<Longrightarrow> round53 n = n"
  using bit_length_le [of n 53] by (simp add: round53_def)

lemma round_double_exact: "0 \<le> x \<Longrightarrow> x < 2 ^ 53 \<Longrightarrow> round_double x = x"
  using round53_exact [of "nat x"] by (simp add: round_double_def nat_less_iff)

lemma to_number_exact: "n < 2 ^ 53 \<Longrightarrow> to_number (int n) = Fin (int n)"
proof -
  assume n: "n < 2 ^ 53"
  then have "bit_length n \<le> 53" by (rule bit_length_le)
  with n show ?thesis by (simp add: to_number_def round_double_def round53_exact)
qed

lemma not_whitespace_digit: "is_digit r c \<Longrightarrow> \<not> is_whitespace c"
  by (auto simp: is_digit_def digit_of_def is_whitespace_def Let_def split: if_splits option.splits)

lemma parseInt16_hex:
  assumes "z \<noteq> []" "list_all (is_digit 16) z"
  shows "parseInt16 (''0x'' @ z) = to_number (int (radix_value 16 z))"
proof -
  have tw: "takeWhile (is_digit 16) z = z"
    using assms(2) by (simp add: list_all_iff)
  from assms(1) show ?thesis
    by (simp add: parseInt16_def is_whitespace_def Let_def tw)
qed

lemma parseInt16_hex_of_nat: "parseInt16 (''0x'' @ hex_of_nat n) = to_number (int n)"
  using radix_string_props [of 16 n] parseInt16_hex [of "radix_string 16 n"]
  by (simp add: hex_of_nat_def)

lemma parseInt16_no_digit:
  assumes "spec = [] \<or> \<not> (is_whitespace (hd spec) \<or> hd spec = CHR ''+'' \<or> hd spec = CHR ''-''
             \<or> is_digit 16 (hd spec))"
  shows "parseInt16 spec = NaN"
proof (cases spec)
  case Nil
  then show ?thesis by (simp add: parseInt16_def)
next
  case (Cons c cs)
  with assms have c: "\<not> is_whitespace c" "c \<noteq> CHR ''+''" "c \<noteq> CHR ''-''" "\<not> is_digit 16 c"
    by auto
  then have "c \<noteq> CHR ''0''" by (auto simp: is_digit_def digit_of_def)
  with c Cons show ?thesis by (simp add: parseInt16_def)
qed

lemma trim_id: "s \<noteq> [] \<Longrightarrow> \<not> is_whitespace (hd s) \<Longrightarrow> \<not> is_whitespace (last s) \<Longrightarrow> trim s = s"
proof -
  assume s: "s \<noteq> []" "\<not> is_whitespace (hd s)" "\<not> is_whitespace (last s)"
  then have "dropWhile is_whitespace s = s"
    by (simp add: dropWhile_eq_self_iff)
  moreover from s have "dropWhile is_whitespace (rev s) = rev s"
    by (simp add: dropWhile_eq_self_iff hd_rev)
  ultimately show ?thesis by (simp add: trim_def)
qed

lemma decimal_digit_chars:
  "is_digit 10 c \<Longrightarrow> c \<notin> {CHR ''x'', CHR ''X'', CHR ''o'', CHR ''O'', CHR ''b'', CHR ''B'', CHR ''-'', CHR ''+''}"
  by (auto simp: is_digit_def digit_of_def)

lemma BigInt_decimal:
  assumes z: "z \<noteq> []" "list_all (is_digit 10) z"
  shows "BigInt z = Inr (int (radix_value 10 z))"
    and "BigInt (''-'' @ z) = Inr (- int (radix_value 10 z))"
proof -
  from z obtain c cs where zc: "z = c # cs" by (cases z) auto
  from z have all: "\<And>x. x \<in> set z \<Longrightarrow> is_digit 10 x" by (simp add: list_all_iff)
  have hd: "is_digit 10 (hd z)" and last: "is_digit 10 (last z)"
    using z all by auto
  have t1: "trim z = z"
    using z hd last by (simp add: trim_id not_whitespace_digit)
  have "\<not> is_whitespace (hd (''-'' @ z))"
    by (simp add: is_whitespace_def)
  moreover have "\<not> is_whitespace (last (''-'' @ z))"
    using z last by (simp add: not_whitespace_digit)
  ultimately have t2: "trim (''-'' @ z) = ''-'' @ z"
    by (intro trim_id) simp_all
  have c: "c \<notin> {CHR ''x'', CHR ''X'', CHR ''o'', CHR ''O'', CHR ''b'', CHR ''B'', CHR ''-'', CHR ''+''}"
    using hd zc decimal_digit_chars by simp
  have p2: "take 2 z \<noteq> [CHR ''0'', a]" if "a \<in> {CHR ''x'', CHR ''X'', CHR ''o'', CHR ''O'', CHR ''b'', CHR ''B''}" for a
  proof
    assume "take 2 z = [CHR ''0'', a]"
    then have "a \<in> set z" by (metis in_set_takeD list.set_intros(1,2))
    then have "is_digit 10 a" by (rule all)
    with that decimal_digit_chars [of a] show False by auto
  qed
  have np: "take 2 z \<noteq> ''0x''" "take 2 z \<noteq> ''0X''" "take 2 z \<noteq> ''0o''"
    "take 2 z \<noteq> ''0O''" "take 2 z \<noteq> ''0b''" "take 2 z \<noteq> ''0B''"
    using p2 by simp_all
  have ns: "take (Suc 0) z \<noteq> ''-''" "take (Suc 0) z \<noteq> ''+''"
    using zc c by auto
  from z show "BigInt z = Inr (int (radix_value 10 z))"
    by (simp add: BigInt_def t1 np ns digits_to_int_def)
  from z show "BigInt (''-'' @ z) = Inr (- int (radix_value 10 z))"
    unfolding BigInt_def t2 by (simp add: digits_to_int_def)
qed

lemma type_parser_column_text: "type_parser (column_text n) = Inr n"
  using radix_string_props [of 10 "nat n"] radix_string_props [of 10 "nat (- n)"]
    BigInt_decimal [of "radix_string 10 (nat n)"] BigInt_decimal [of "radix_string 10 (nat (- n))"]
  by (simp add: type_parser_def column_text_def)

lemma to_number_not_NaN: "to_number x \<noteq> NaN"
  by (simp add: to_number_def Let_def)

lemmas number_eval = parseInt16_def to_number_def round_double_def round53_def Let_def
  is_whitespace_def is_digit_def digit_of_def radix_value_def bit_length.simps

text \<open>
  Claim C4, as the code has it. \<^verbatim>\<open>earliest\<close> resolves to 0; \<^verbatim>\<open>latest\<close> and \<^verbatim>\<open>pending\<close>
  resolve to the latest block ID that \<open>resolveBlockSpec\<close> is given, the store's maximum;
  the hexadecimal literal of a height below \<open>2 ^ 53\<close> resolves to exactly that height;
  and a literal other than the three tags fails with the error \<^verbatim>\<open>invalid block ID:\<close>
  followed by the literal exactly when \<^verbatim>\<open>parseInt\<close> finds no hexadecimal digit and gives
  NaN, as it does for the empty literal and for one whose first character is neither
  white space, a sign nor a hexadecimal digit; any other literal resolves to the Number
  that \<^verbatim>\<open>parseInt\<close> gives.
\<close>

theorem resolveBlockSpec_cases:
  "resolveBlockSpec latest (Some ''earliest'') = Inr (JNumber (Fin 0))
   \<and> resolveBlockSpec latest (Some ''latest'') = Inr latest
   \<and> resolveBlockSpec latest (Some ''pending'') = Inr latest
   \<and> (n < 2 ^ 53 \<longrightarrow>
        resolveBlockSpec latest (Some (''0x'' @ hex_of_nat n)) = Inr (JNumber (Fin (int n))))
   \<and> (spec \<notin> {''earliest'', ''latest'', ''pending''} \<longrightarrow>
        (resolveBlockSpec latest (Some spec) = Inl (Error (''invalid block ID: '' @ spec))
           \<longleftrightarrow> parseInt16 spec = NaN)
        \<and> (parseInt16 spec \<noteq> NaN \<longrightarrow>
             resolveBlockSpec latest (Some spec) = Inr (JNumber (parseInt16 spec))))
   \<and> (spec = [] \<or> \<not> (is_whitespace (hd spec) \<or> hd spec = CHR ''+'' \<or> hd spec = CHR ''-''
             \<or> is_digit 16 (hd spec))
      \<longrightarrow> parseInt16 spec = NaN)"
proof -
  have "resolveBlockSpec latest (Some (''0x'' @ hex_of_nat n)) = Inr (JNumber (Fin (int n)))"
    if "n < 2 ^ 53"
    using that by (simp add: resolveBlockSpec_def parseInt16_hex_of_nat [simplified] to_number_exact)
  moreover have "(resolveBlockSpec latest (Some spec) = Inl (Error (''invalid block ID: '' @ spec))
           \<longleftrightarrow> parseInt16 spec = NaN)
        \<and> (parseInt16 spec \<noteq> NaN \<longrightarrow>
             resolveBlockSpec latest (Some spec) = Inr (JNumber (parseInt16 spec)))"
    if "spec \<notin> {''earliest'', ''latest'', ''pending''}"
    using that by (simp add: resolveBlockSpec_def Let_def)
  ultimately show ?thesis
    using parseInt16_no_digit [of spec] by (simp add: resolveBlockSpec_def)
qed

lemma hex_of_nat_255: "hex_of_nat 255 = ''ff''"
  by (simp add: hex_of_nat_def radix_string.simps digit_char_def)

theorem resolveBlockSpec_cases_witness:
  "resolveBlockSpec (JBigInt 100) (Some ''earliest'') = Inr (JNumber (Fin 0))
   \<and> resolveBlockSpec (JBigInt 100) (Some ''latest'') = Inr (JBigInt 100)
   \<and> resolveBlockSpec (JBigInt 100) (Some ''pending'') = Inr (JBigInt 100)
   \<and> resolveBlockSpec (JBigInt 100) (Some ''0xff'') = Inr (JNumber (Fin 255))
   \<and> resolveBlockSpec (JBigInt 100) (Some ''safe'') = Inl (Error ''invalid block ID: safe'')
   \<and> resolveBlockSpec (JBigInt 100) (Some ''0x'') = Inl (Error ''invalid block ID: 0x'')
   \<and> resolveBlockSpec (JBigInt 100) (Some ''0xzz'') = Inl (Error ''invalid block ID: 0xzz'')
   \<and> resolveBlockSpec (JBigInt 100) (Some ''-'') = Inl (Error ''invalid block ID: -'')
   \<and> resolveBlockSpec (JBigInt 100) (Some []) = Inl (Error ''invalid block ID: '')
   \<and> resolveBlockSpec (JBigInt 100) (Some ''12'') = Inr (JNumber (Fin 18))"
proof -
  have small: "(255 :: nat) < 2 ^ 53" by simp
  have nan: "parseInt16 ''safe'' = NaN" "parseInt16 ''0x'' = NaN" "parseInt16 ''0xzz'' = NaN"
    "parseInt16 ''-'' = NaN" "parseInt16 [] = NaN"
    by (simp_all add: number_eval)
  have num: "parseInt16 ''12'' = Fin 18"
    by (simp add: number_eval)
  from resolveBlockSpec_cases [of "JBigInt 100" 255 "''safe''"]
    resolveBlockSpec_cases [of "JBigInt 100" 255 "''0x''"]
    resolveBlockSpec_cases [of "JBigInt 100" 255 "''0xzz''"]
    resolveBlockSpec_cases [of "JBigInt 100" 255 "''-''"]
    resolveBlockSpec_cases [of "JBigInt 100" 255 "[]"]
    resolveBlockSpec_cases [of "JBigInt 100" 255 "''12''"]
    small nan num
  show ?thesis by (simp add: hex_of_nat_255)
qed

text \<open>
  Claim C4 as stated does not hold. The literal \<^verbatim>\<open>0x1g\<close> is not a well-formed integer and
  resolves to 1, since \<^verbatim>\<open>parseInt\<close> reads the digits it finds and ignores the rest; and
  the literal of \<open>2 ^ 53 + 1\<close> resolves to \<open>2 ^ 53\<close>, since the result is a double.
\<close>

theorem resolveBlockSpec_counterexample:
  "resolveBlockSpec (JBigInt 100) (Some ''0x1g'') = Inr (JNumber (Fin 1))
   \<and> radix_value 16 ''20000000000001'' = 9007199254740993
   \<and> resolveBlockSpec (JBigInt 100) (Some ''0x20000000000001'') = Inr (JNumber (Fin 9007199254740992))"
  by (simp add: resolveBlockSpec_def number_eval)

text \<open>
  Claim C9, as the code has it. An integer that the store sends for one of the columns
  with a \<^verbatim>\<open>BigInt\<close> parser is decoded to exactly that integer, whatever its size. A
  block height or a filter id in an RPC argument is parsed into a Number: the hexadecimal
  literal of \<open>m\<close> becomes the double nearest to \<open>m\<close>, which is \<open>m\<close> itself when
  \<open>m < 2 ^ 53\<close>. The indexer's block counter is a Number too, and counts exactly below
  \<open>2 ^ 53\<close>.
\<close>

theorem numeric_representation:
  "type_parser (column_text n) = Inr n
   \<and> resolveBlockSpec latest (Some (''0x'' @ hex_of_nat m)) = Inr (JNumber (to_number (int m)))
   \<and> parseInt16 (''0x'' @ hex_of_nat m) = to_number (int m)
   \<and> (m < 2 ^ 53 \<longrightarrow> to_number (int m) = Fin (int m))
   \<and> (0 \<le> b \<and> b < 2 ^ 53 \<longrightarrow> increment b = b + 1)"
proof -
  have "increment b = b + 1" if "0 \<le> b" "b < 2 ^ 53"
  proof (cases "b + 1 < 2 ^ 53")
    case True
    with that show ?thesis by (simp add: increment_def round_double_exact)
  next
    case False
    with that have "b + 1 = 2 ^ 53" by simp
    then show ?thesis
      by (simp add: increment_def round_double_def round53_def bit_length.simps Let_def)
  qed
  then show ?thesis
    by (simp add: type_parser_column_text resolveBlockSpec_def parseInt16_hex_of_nat [simplified]
        to_number_exact to_number_not_NaN)
qed

theorem numeric_representation_witness:
  "type_parser (column_text 115792089237316195423570985008687907853269984665640564039457584007913129639935)
     = Inr 115792089237316195423570985008687907853269984665640564039457584007913129639935
   \<and> parseInt16 (''0x'' @ hex_of_nat 255) = Fin 255
   \<and> increment 41 = 42"
proof -
  have "(255 :: nat) < 2 ^ 53" "(0 :: int) \<le> 41 \<and> (41 :: int) < 2 ^ 53" by simp_all
  with numeric_representation
    [of 115792089237316195423570985008687907853269984665640564039457584007913129639935 "JBigInt 0" 255 41]
  show ?thesis by simp
qed

text \<open>
  Claim C9 as stated does not hold: the filter ids \<open>2 ^ 53 + 1\<close> and \<open>2 ^ 53\<close> are the
  same Number, and the store is asked for the same filter.
\<close>

theorem numeric_representation_counterexample:
  "snd (eth_getFilterLogs empty_store ''0x20000000000001'')
     = [Select_filter_type (Fin 9007199254740992)]
   \<and> snd (eth_getFilterLogs empty_store ''0x20000000000000'')
     = [Select_filter_type (Fin 9007199254740992)]"
  by (simp add: eth_getFilterLogs_def filter_results_def run_query_def first_row_def
      empty_store_def number_eval)

section \<open>Properties of the query server\<close>

lemmas server_eval = filter_results_def run_query_def first_row_def try_query_def
  empty_store_def failing_store_def

text \<open>
  Claim C5. With the filter id 0 both \<open>eth_getFilterChanges\<close> and \<open>eth_getFilterLogs\<close>
  return the empty sequence and send nothing to the store, whatever the store is. With an
  id that names no filter the lookup of the filter's type finds no row, and the
  destructuring of the first row throws: in a store without filters the call with id 5
  ends in a \<^verbatim>\<open>TypeError\<close>, not in the empty sequence.
\<close>

theorem filter_unknown_id:
  "eth_getFilterChanges db ''0x0'' = (Inr (JArray []), [])
   \<and> eth_getFilterLogs db ''0x0'' = (Inr (JArray []), [])
   \<and> eth_getFilterChanges empty_store ''0x5''
     = (Inl (TypeError ''Cannot destructure property of undefined''), [Select_filter_type (Fin 5)])
   \<and> eth_getFilterLogs empty_store ''0x5''
     = (Inl (TypeError ''Cannot destructure property of undefined''), [Select_filter_type (Fin 5)])"
  by (simp add: eth_getFilterChanges_def eth_getFilterLogs_def server_eval number_eval)

text \<open>
  Claim C6. When the store finds no row, \<open>eth_getTransactionByHash\<close> returns \<^verbatim>\<open>null\<close>, and
  \<open>eth_getBlockByHash\<close> and \<open>eth_getBlockByNumber\<close> return the exported list of rows, the
  empty array. When the statement fails in the store, all three return \<^verbatim>\<open>null\<close>. None
  of them throws.
\<close>

theorem lookup_of_absent_item:
  "eth_getBlockByHash empty_store ''0xaa''
     = (Inr (JArray []), [Sql ''SELECT * FROM eth_getBlockByHash($1)'' [JBuffer [0xaa]]])
   \<and> eth_getBlockByNumber empty_store ''0x5''
     = (Inr (JArray []), [Sql ''SELECT * FROM eth_getBlockByNumber($1)'' [JNumber (Fin 5)]])
   \<and> eth_getTransactionByHash empty_store ''0xaa''
     = (Inr JNull, [Sql ''SELECT * FROM eth_getTransactionByHash($1)'' [JBuffer [0xaa]]])
   \<and> fst (eth_getBlockByHash failing_store ''0xaa'') = Inr JNull
   \<and> fst (eth_getBlockByNumber failing_store ''0x5'') = Inr JNull
   \<and> fst (eth_getTransactionByHash failing_store ''0xaa'') = Inr JNull"
  by (simp add: eth_getBlockByHash_def eth_getBlockByNumber_def eth_getTransactionByHash_def
      block_result_def export_rows_def starts_with_0x_def server_eval number_eval hexToBytes_def)

lemma first_sent_run_query: "first_sent (run_query db q rest) = Some q"
  by (simp add: first_sent_def run_query_def split: sum.splits prod.splits)

lemma run_query_error: "db q = Inl e \<Longrightarrow> fst (run_query db q rest) = Inl e"
  by (simp add: run_query_def)

text \<open>
  Claim C7. A filter id that \<^verbatim>\<open>parseInt\<close> cannot parse is NaN, which is not 0, and the
  filter calls do not look at it any further: no call fails before the store is reached.
  The first thing \<open>eth_getFilterChanges\<close>, \<open>eth_getFilterLogs\<close> and \<open>eth_uninstallFilter\<close> do
  is to send their statement to the store with NaN as the filter id, and an error of the
  call is the store's, or comes from the store's answer.
\<close>

theorem filter_calls_unparseable_id:
  assumes "parseInt16 filterID = NaN"
  shows "first_sent (eth_getFilterChanges db filterID) = Some (Select_filter_type NaN)
    \<and> first_sent (eth_getFilterLogs db filterID) = Some (Select_filter_type NaN)
    \<and> first_sent (eth_uninstallFilter db filterID)
        = Some (Sql ''SELECT eth_uninstallFilter($1::inet, $2::bigint) AS found''
                  [JString ''0.0.0.0'', JNumber NaN])
    \<and> (db (Select_filter_type NaN) = Inl e \<longrightarrow>
          fst (eth_getFilterChanges db filterID) = Inl e
          \<and> fst (eth_getFilterLogs db filterID) = Inl e)"
  using assms
  by (simp add: eth_getFilterChanges_def eth_getFilterLogs_def eth_uninstallFilter_def
      filter_results_def first_sent_run_query run_query_error)

theorem filter_calls_unparseable_id_witness:
  "parseInt16 ''zz'' = NaN
   \<and> first_sent (eth_getFilterChanges failing_store ''zz'') = Some (Select_filter_type NaN)
   \<and> first_sent (eth_getFilterLogs failing_store ''zz'') = Some (Select_filter_type NaN)
   \<and> first_sent (eth_uninstallFilter failing_store ''zz'')
        = Some (Sql ''SELECT eth_uninstallFilter($1::inet, $2::bigint) AS found''
                  [JString ''0.0.0.0'', JNumber NaN])
   \<and> fst (eth_getFilterChanges failing_store ''zz'') = Inl (StoreError ''query returned no rows'')
   \<and> eth_getFilterChanges empty_store ''zz''
       = (Inl (TypeError ''Cannot destructure property of undefined''), [Select_filter_type NaN])
   \<and> eth_getFilterLogs empty_store ''zz''
       = (Inl (TypeError ''Cannot destructure property of undefined''), [Select_filter_type NaN])
   \<and> eth_uninstallFilter empty_store ''zz''
       = (Inl (TypeError ''Cannot destructure property of undefined''),
          [Sql ''SELECT eth_uninstallFilter($1::inet, $2::bigint) AS found''
             [JString ''0.0.0.0'', JNumber NaN]])"
proof -
  have nan: "parseInt16 ''zz'' = NaN" by (simp add: number_eval)
  have err: "failing_store (Select_filter_type NaN) = Inl (StoreError ''query returned no rows'')"
    by (simp add: failing_store_def)
  have empty: "eth_getFilterChanges empty_store ''zz''
       = (Inl (TypeError ''Cannot destructure property of undefined''), [Select_filter_type NaN])"
    "eth_getFilterLogs empty_store ''zz''
       = (Inl (TypeError ''Cannot destructure property of undefined''), [Select_filter_type NaN])"
    "eth_uninstallFilter empty_store ''zz''
       = (Inl (TypeError ''Cannot destructure property of undefined''),
          [Sql ''SELECT eth_uninstallFilter($1::inet, $2::bigint) AS found''
             [JString ''0.0.0.0'', JNumber NaN]])"
    by (simp_all add: eth_getFilterChanges_def eth_getFilterLogs_def eth_uninstallFilter_def
        server_eval nan)
  from filter_calls_unparseable_id [OF nan, of failing_store "StoreError ''query returned no rows''"]
    err nan empty
  show ?thesis by simp
qed

lemma holds_range:
  "holds r (And [Gte B_id (JBigInt n), Lte B_id (JBigInt n)]) = Some (b_id r = Some n)"
  by (cases "b_id r") (auto simp: compare_cell_def)

lemma block_clauses_default:
  "no_block_constraint opts \<Longrightarrow>
     block_clauses latest opts =
       Inr (if truthy latest then [Gte B_id latest, Lte B_id latest] else [])"
  by (simp add: no_block_constraint_def block_clauses_def resolveBlockSpec_def)

text \<open>
  Claim C10. An absent \<open>fromBlock\<close> or \<open>toBlock\<close> resolves to the latest block ID. When
  that is not 0, \<open>eth_getLogs\<close> without any constraint asks the store for the latest block
  ID and then for the rows with \<^verbatim>\<open>b.id >= latest\<close> and \<^verbatim>\<open>b.id <= latest\<close>, and returns the
  rows of the latest block; a request without \<open>blockHash\<close>, \<open>fromBlock\<close> and \<open>toBlock\<close>
  selects rows of the latest block only, whatever else it asks for. When the latest block
  ID is 0, both bounds are falsy and no clause is added: the statement has a \<^verbatim>\<open>WHERE\<close>
  with nothing after it, the store rejects it, and the request fails.
\<close>

theorem getLogs_default_range:
  "resolveBlockSpec latest None = Inr latest
   \<and> (n \<noteq> 0 \<longrightarrow>
        eth_getLogs parse (log_store n rows) no_constraint
          = (Inr (export_rows (map result_row (filter (\<lambda>r. b_id r = Some n) rows))),
             [Sql ''SELECT eth_blockNumber() AS id'' [],
              Select_logs (And [Gte B_id (JBigInt n), Lte B_id (JBigInt n)])]))
   \<and> eth_getLogs parse (log_store 0 rows) no_constraint
        = (Inl (StoreError ''syntax error''),
           [Sql ''SELECT eth_blockNumber() AS id'' [], Select_logs (And [])])
   \<and> (no_block_constraint opts \<and> n \<noteq> 0 \<and> where_clauses parse (JBigInt n) opts = Inr clauses
        \<and> holds r (And clauses) = Some True \<longrightarrow> b_id r = Some n)"
proof -
  have c1: "resolveBlockSpec latest None = Inr latest"
    by (simp add: resolveBlockSpec_def)
  have c2: "eth_getLogs parse (log_store n rows) no_constraint
          = (Inr (export_rows (map result_row (filter (\<lambda>r. b_id r = Some n) rows))),
             [Sql ''SELECT eth_blockNumber() AS id'' [],
              Select_logs (And [Gte B_id (JBigInt n), Lte B_id (JBigInt n)])])"
    if "n \<noteq> 0"
  proof -
    have "renders (And [Gte B_id (JBigInt n), Lte B_id (JBigInt n)])" by simp
    moreover have "filter (\<lambda>r. holds r (And [Gte B_id (JBigInt n), Lte B_id (JBigInt n)]) = Some True) rows
        = filter (\<lambda>r. b_id r = Some n) rows"
      by (simp only: holds_range) simp
    ultimately show ?thesis using that
      by (simp add: logs_eval del: holds.simps renders.simps)
  qed
  have c3: "eth_getLogs parse (log_store 0 rows) no_constraint
        = (Inl (StoreError ''syntax error''),
           [Sql ''SELECT eth_blockNumber() AS id'' [], Select_logs (And [])])"
    by (simp add: logs_eval)
  have c4: "b_id r = Some n"
    if "no_block_constraint opts" "n \<noteq> 0" "where_clauses parse (JBigInt n) opts = Inr clauses"
      "holds r (And clauses) = Some True"
  proof -
    from that(1,2,3) obtain rest where cl: "clauses = [Gte B_id (JBigInt n), Lte B_id (JBigInt n)] @ rest"
      by (auto simp: where_clauses_def block_clauses_default split: sum.splits)
    from that(4) have "Some False \<notin> holds r ` set clauses"
      by (auto split: if_splits)
    with cl have "compare_cell (\<lambda>x y. num_le y x) (cell r B_id) (JBigInt n)"
      "compare_cell num_le (cell r B_id) (JBigInt n)"
      by auto
    then show ?thesis
      by (cases "b_id r") (auto simp: compare_cell_def)
  qed
  from c1 c2 c3 c4 show ?thesis by blast
qed

theorem getLogs_default_range_witness:
  "eth_getLogs Map.empty (log_store 7 [example_row [] \<lparr>b_id := Some 7\<rparr>, example_row [] \<lparr>b_id := Some 6\<rparr>])
       no_constraint
     = (Inr (export_rows [result_row (example_row [] \<lparr>b_id := Some 7\<rparr>)]),
        [Sql ''SELECT eth_blockNumber() AS id'' [],
         Select_logs (And [Gte B_id (JBigInt 7), Lte B_id (JBigInt 7)])])
   \<and> eth_getLogs Map.empty (log_store 0 [example_row [] \<lparr>b_id := Some 0\<rparr>]) no_constraint
     = (Inl (StoreError ''syntax error''),
        [Sql ''SELECT eth_blockNumber() AS id'' [], Select_logs (And [])])
   \<and> no_block_constraint no_constraint
   \<and> where_clauses Map.empty (JBigInt 7) no_constraint
     = Inr [Gte B_id (JBigInt 7), Lte B_id (JBigInt 7)]
   \<and> holds (example_row [] \<lparr>b_id := Some 7\<rparr>) (And [Gte B_id (JBigInt 7), Lte B_id (JBigInt 7)])
     = Some True
   \<and> b_id (example_row [] \<lparr>b_id := Some 7\<rparr>) = Some 7"
proof -
  have a: "no_block_constraint no_constraint"
    by (simp add: no_block_constraint_def no_constraint_def)
  have b: "where_clauses Map.empty (JBigInt 7) no_constraint
      = Inr [Gte B_id (JBigInt 7), Lte B_id (JBigInt 7)]"
    by (simp add: logs_eval)
  have c: "holds (example_row [] \<lparr>b_id := Some 7\<rparr>) (And [Gte B_id (JBigInt 7), Lte B_id (JBigInt 7)])
      = Some True"
    by (simp only: holds_range) simp
  from getLogs_default_range
    [of "JBigInt 7" 7 Map.empty
      "[example_row [] \<lparr>b_id := Some 7\<rparr>, example_row [] \<lparr>b_id := Some 6\<rparr>]" no_constraint
      "[Gte B_id (JBigInt 7), Lte B_id (JBigInt 7)]" "example_row [] \<lparr>b_id := Some 7\<rparr>"]
    getLogs_default_range
    [of "JBigInt 0" 7 Map.empty "[example_row [] \<lparr>b_id := Some 0\<rparr>]" no_constraint "[]"
      "example_row []"]
    a b c
  show ?thesis by (simp add: example_row_def del: holds.simps)
qed

section \<open>Properties of the block indexer\<close>

lemma index_transactions_keeps:
  "block_table (pg (index_transactions h i ts s)) = block_table (pg s)
   \<and> blockID (index_transactions h i ts s) = blockID s
   \<and> calls (index_transactions h i ts s) = calls s"
  by (induction ts arbitrary: i s) (simp_all add: indexTransaction_def)

lemma indexBlock_polling:
  "indexBlock getBlock fuel h s = (s', None) \<Longrightarrow> pg s' = pg s \<and> blockID s' = blockID s"
  by (induction fuel arbitrary: s) (auto simp: Let_def split: option.splits)

lemma indexBlock_returned:
  "indexBlock getBlock fuel h s = (s', Some fuel') \<Longrightarrow>
     \<exists>k b. getBlock k h = Some b
       \<and> block_table (pg s') = block_table (pg s) @ [(number b, header b)]
       \<and> blockID s' = blockID s \<and> fuel' < fuel"
proof (induction fuel arbitrary: s)
  case 0
  then show ?case by simp
next
  case (Suc fuel)
  show ?case
  proof (cases "getBlock (calls s) h")
    case None
    with Suc.prems have "indexBlock getBlock fuel h
        (s\<lparr>calls := calls s + 1, trace := trace s @ [Fetch h, Sleep 100]\<rparr>) = (s', Some fuel')"
      by (simp add: Let_def)
    from Suc.IH [OF this] obtain k b where "getBlock k h = Some b"
      "block_table (pg s') = block_table (pg s) @ [(number b, header b)]"
      "blockID s' = blockID s" "fuel' < fuel"
      by auto
    then show ?thesis by (intro exI [of _ k] exI [of _ b]) simp
  next
    case (Some b)
    with Suc.prems have "block_table (pg s') = block_table (pg s) @ [(number b, header b)]
        \<and> blockID s' = blockID s \<and> fuel' < Suc fuel"
      by (auto simp: Let_def index_transactions_keeps insert_block_def)
    with Some show ?thesis by (intro exI [of _ "calls s"] exI [of _ b]) simp
  qed
qed

lemma start_loop_grows:
  "length (block_table (pg s)) \<le> length (block_table (pg (start_loop getBlock fuel s)))"
proof (induction getBlock fuel s rule: start_loop.induct)
  case (1 getBlock fuel s)
  obtain s' x where ib: "indexBlock getBlock fuel (blockID s) s = (s', x)"
    by (cases "indexBlock getBlock fuel (blockID s) s") auto
  show ?case
  proof (cases x)
    case None
    with ib indexBlock_polling [of getBlock fuel "blockID s" s s'] show ?thesis
      by (subst start_loop.simps) simp
  next
    case (Some fuel')
    with ib indexBlock_returned [of getBlock fuel "blockID s" s s' fuel']
    have "length (block_table (pg s)) \<le> length (block_table (pg s'))" by auto
    moreover from "1.IH" [OF ib [symmetric] Some]
    have "length (block_table (pg s'))
        \<le> length (block_table (pg (start_loop getBlock fuel' (s'\<lparr>blockID := increment (blockID s')\<rparr>))))"
      by simp
    ultimately show ?thesis using ib Some
      by (subst start_loop.simps) simp
  qed
qed

lemma increment_exact: "0 \<le> b \<Longrightarrow> b < 2 ^ 53 \<Longrightarrow> increment b = b + 1"
proof (cases "b + 1 < 2 ^ 53")
  case True
  assume "0 \<le> b"
  with True show ?thesis by (simp add: increment_def round_double_exact)
next
  case False
  assume "0 \<le> b" "b < 2 ^ 53"
  with False have "b + 1 = 2 ^ 53" by simp
  then show ?thesis
    by (simp add: increment_def round_double_def round53_def bit_length.simps Let_def)
qed

lemma start_loop_counting:
  "faithful getBlock \<Longrightarrow> counting s \<Longrightarrow>
     length (block_table (pg (start_loop getBlock fuel s))) \<le> 2 ^ 53 \<Longrightarrow>
     counting (start_loop getBlock fuel s)"
proof (induction getBlock fuel s rule: start_loop.induct)
  case (1 getBlock fuel s)
  obtain s' x where ib: "indexBlock getBlock fuel (blockID s) s = (s', x)"
    by (cases "indexBlock getBlock fuel (blockID s) s") auto
  show ?case
  proof (cases x)
    case None
    with ib indexBlock_polling [of getBlock fuel "blockID s" s s'] "1.prems"(2) show ?thesis
      by (subst start_loop.simps) (simp add: counting_def)
  next
    case (Some fuel')
    let ?s'' = "s'\<lparr>blockID := increment (blockID s')\<rparr>"
    have res: "start_loop getBlock fuel s = start_loop getBlock fuel' ?s''"
      using ib Some by (subst start_loop.simps) simp
    from ib Some indexBlock_returned [of getBlock fuel "blockID s" s s' fuel']
    obtain k b where b: "getBlock k (blockID s) = Some b"
      "block_table (pg s') = block_table (pg s) @ [(number b, header b)]" "blockID s' = blockID s"
      by auto
    from b(1) "1.prems"(1) have nb: "number b = blockID s" by (auto simp: faithful_def)
    let ?n = "length (block_table (pg s))"
    from "1.prems"(2) have c: "heights (pg s) = map int [0..<?n]" "blockID s = int ?n"
      by (simp_all add: counting_def gap_free_def)
    have "length (block_table (pg ?s'')) \<le> length (block_table (pg (start_loop getBlock fuel' ?s'')))"
      by (rule start_loop_grows)
    with "1.prems"(3) res b(2) have "Suc ?n \<le> 2 ^ 53" by simp
    then have "int ?n < 2 ^ 53"
      by (metis Suc_le_lessD of_nat_less_iff of_nat_numeral of_nat_power)
    with c(2) b(3) have "increment (blockID s') = int ?n + 1"
      by (simp add: increment_exact)
    with b(2) c nb have "counting ?s''"
      by (simp add: counting_def gap_free_def heights_def)
    from "1.IH" [OF ib [symmetric] Some "1.prems"(1) this] "1.prems"(3) res
    show ?thesis by simp
  qed
qed


lemma sql_max_snoc:
  "sql_max (xs @ [x]) = Some (case sql_max xs of None \<Rightarrow> x | Some m \<Rightarrow> max m x)"
  by (induction xs) (auto split: option.splits)

lemma sql_max_upt: "sql_max (map int [0..<Suc k]) = Some (int k)"
proof (induction k)
  case 0
  show ?case by simp
next
  case (Suc k)
  have "sql_max (map int [0..<Suc (Suc k)]) = sql_max (map int [0..<Suc k] @ [int (Suc k)])"
    by (simp only: upt_Suc_append le0 map_append list.map)
  also have "\<dots> = Some (case sql_max (map int [0..<Suc k]) of
      None \<Rightarrow> int (Suc k) | Some m \<Rightarrow> max m (int (Suc k)))"
    by (rule sql_max_snoc)
  also have "\<dots> = Some (max (int k) (int (Suc k)))"
    by (simp only: Suc option.case)
  also have "\<dots> = Some (int (Suc k))"
    by simp
  finally show ?case .
qed

lemma resume_at_gap_free:
  assumes "heights d = map int [0..<n]"
  shows "resume_at d =
    (if n = 0 then Inr 0 else if n \<le> 2 ^ 31 then Inr (int n)
     else Inl (StoreError ''integer out of range''))"
proof (cases n)
  case 0
  with assms show ?thesis by (simp add: resume_at_def heights_def)
next
  case (Suc k)
  with assms have m: "sql_max (map fst (block_table d)) = Some (int k)"
    using sql_max_upt [of k] by (simp add: heights_def)
  show ?thesis
  proof (cases "n \<le> 2 ^ 31")
    case True
    with Suc have k: "int k < 2 ^ 31" by simp
    then have "int k + 1 < 2 ^ 53" by simp
    then have "round_double (int k + 1) = int k + 1"
      by (intro round_double_exact) simp_all
    with k m Suc True show ?thesis by (simp add: resume_at_def cast_int4_def)
  next
    case False
    with Suc have "\<not> int k < 2 ^ 31" by simp
    with m Suc False show ?thesis by (simp add: resume_at_def cast_int4_def)
  qed
qed

lemma counting_fresh: "gap_free d \<Longrightarrow> counting (fresh d (int (length (block_table d))))"
  by (simp add: counting_def fresh_def)

text \<open>
  Claim C1, as the code has it. The engine answers faithfully, and fails as often as it
  likes before each block. A run of the indexer from the empty store that records
  \<open>N\<close> blocks, \<open>N\<close> at most \<open>2 ^ 53\<close>, records the heights \<open>0, ..., N - 1\<close> in this
  order: increasing, without gap or duplicate. On a gap-free store of at most \<open>2 ^ 31\<close>
  blocks the indexer resumes at the maximum height plus one, which is the number of
  blocks, and at 0 on the empty store; the run from there keeps what was recorded and
  leaves the store gap-free again.
\<close>

theorem indexer_gap_free:
  assumes "faithful getBlock"
  shows "(\<exists>s. start getBlock fuel empty_tables = Inr s
            \<and> (length (block_table (pg s)) \<le> 2 ^ 53 \<longrightarrow> gap_free (pg s)))
     \<and> (gap_free d \<and> length (block_table d) \<le> 2 ^ 31 \<longrightarrow>
          resume_at d = Inr (int (length (block_table d)))
          \<and> resume_at d = Inr (case sql_max (heights d) of None \<Rightarrow> 0 | Some m \<Rightarrow> m + 1)
          \<and> (\<exists>s. start getBlock fuel d = Inr s
                \<and> length (block_table d) \<le> length (block_table (pg s))
                \<and> (length (block_table (pg s)) \<le> 2 ^ 53 \<longrightarrow> gap_free (pg s))))"
proof -
  have restart: "resume_at d' = Inr (int (length (block_table d')))
      \<and> resume_at d' = Inr (case sql_max (heights d') of None \<Rightarrow> 0 | Some m \<Rightarrow> m + 1)
      \<and> (\<exists>s. start getBlock fuel d' = Inr s
            \<and> length (block_table d') \<le> length (block_table (pg s))
            \<and> (length (block_table (pg s)) \<le> 2 ^ 53 \<longrightarrow> gap_free (pg s)))"
    if gf: "gap_free d'" and le: "length (block_table d') \<le> 2 ^ 31" for d' :: "('a, 'b) tables"
  proof -
    let ?n = "length (block_table d')"
    from gf have h: "heights d' = map int [0..<?n]" by (simp add: gap_free_def)
    from resume_at_gap_free [OF h] le have r: "resume_at d' = Inr (int ?n)" by simp
    have r': "(case sql_max (heights d') of None \<Rightarrow> 0 | Some m \<Rightarrow> m + 1) = int ?n"
    proof (cases ?n)
      case 0
      with h show ?thesis by simp
    next
      case (Suc k)
      with h sql_max_upt [of k] show ?thesis by simp
    qed
    let ?s = "start_loop getBlock fuel (fresh d' (int ?n))"
    have st: "start getBlock fuel d' = Inr ?s" by (simp add: start_def r)
    have "length (block_table (pg (fresh d' (int ?n)))) \<le> length (block_table (pg ?s))"
      by (rule start_loop_grows)
    then have grow: "?n \<le> length (block_table (pg ?s))" by (simp add: fresh_def)
    have "gap_free (pg ?s)" if "length (block_table (pg ?s)) \<le> 2 ^ 53"
      using start_loop_counting [OF assms counting_fresh [OF gf] that] by (simp add: counting_def)
    with st grow r r' show ?thesis by simp
  qed
  have "gap_free (empty_tables :: ('a, 'b) tables)"
    by (simp add: gap_free_def empty_tables_def heights_def)
  moreover have "length (block_table (empty_tables :: ('a, 'b) tables)) \<le> 2 ^ 31"
    by (simp add: empty_tables_def)
  ultimately have "\<exists>s. start getBlock fuel empty_tables = Inr s
      \<and> (length (block_table (pg s)) \<le> 2 ^ 53 \<longrightarrow> gap_free (pg s))"
    using restart [of empty_tables] by blast
  with restart [of d] show ?thesis by blast
qed

lemma faithful_third_time: "faithful third_time"
  by (simp add: faithful_def third_time_def)

theorem indexer_gap_free_witness:
  "faithful third_time
   \<and> (\<exists>s. start third_time 7 empty_tables = Inr s \<and> heights (pg s) = [0, 1] \<and> gap_free (pg s)
          \<and> resume_at (pg s) = Inr 2
          \<and> (\<exists>s'. start third_time 4 (pg s) = Inr s' \<and> heights (pg s') = [0, 1, 2]
                 \<and> gap_free (pg s')))"
proof -
  let ?s = "start_loop third_time 7 (fresh empty_tables 0)"
  have run: "start third_time 7 empty_tables = Inr ?s"
    by (simp add: start_def resume_at_def empty_tables_def)
  have bs: "block_table (pg ?s) = [(0, ()), (1, ())]"
    by code_simp
  have bs': "block_table (pg (start_loop third_time 4 (fresh (pg ?s) 2))) = [(0, ()), (1, ()), (2, ())]"
    by code_simp
  from indexer_gap_free [OF faithful_third_time, of 7 empty_tables] run bs
  have gf: "gap_free (pg ?s)" by simp
  have small: "length (block_table (pg ?s)) \<le> 2 ^ 31" by (simp add: bs)
  from indexer_gap_free [OF faithful_third_time, of 4 "pg ?s"] gf small
  obtain s' where s': "resume_at (pg ?s) = Inr (int (length (block_table (pg ?s))))"
    "start third_time 4 (pg ?s) = Inr s'"
    "length (block_table (pg s')) \<le> 2 ^ 53 \<longrightarrow> gap_free (pg s')"
    by blast
  from s'(1) bs have r: "resume_at (pg ?s) = Inr 2" by simp
  with s'(2) bs' have b': "block_table (pg s') = [(0, ()), (1, ()), (2, ())]"
    by (simp add: start_def)
  with s'(3) have "gap_free (pg s')" by simp
  with run s'(2) r bs b' gf faithful_third_time show ?thesis
    by (simp add: heights_def)
qed

text \<open>
  Claim C1 as stated, for every finite run, does not hold: after \<open>2 ^ 31 + 1\<close> blocks
  the store is gap-free with maximum height \<open>2 ^ 31\<close>, which \<^verbatim>\<open>MAX(id)::int\<close> cannot
  return, and the restart fails in the store instead of resuming. And the height to
  index is a Number: at \<open>2 ^ 53\<close> adding 1 leaves it as it is.
\<close>

lemma faithful_always_ok: "faithful always_ok"
  by (simp add: faithful_def always_ok_def)

lemma always_ok_run:
  "length (block_table (pg (start_loop always_ok fuel s))) = length (block_table (pg s)) + fuel"
proof (induction fuel arbitrary: s)
  case 0
  show ?case by (subst start_loop.simps) simp
next
  case (Suc fuel)
  have "indexBlock always_ok (Suc fuel) h s = (persisted h \<lparr>number = h, header = (), transactions = []\<rparr> s, Some fuel)"
    for h
    by (simp add: always_ok_def persisted_def)
  then show ?case
    by (subst start_loop.simps) (simp add: Suc persisted_def insert_block_def)
qed

theorem indexer_gap_free_counterexample:
  "start always_ok 2147483649 empty_tables = Inr after_long_run
   \<and> gap_free (pg after_long_run)
   \<and> length (block_table (pg after_long_run)) = 2147483649
   \<and> sql_max (heights (pg after_long_run)) = Some 2147483648
   \<and> resume_at (pg after_long_run) = Inl (StoreError ''integer out of range'')
   \<and> start always_ok 1 (pg after_long_run) = Inl (StoreError ''integer out of range'')
   \<and> increment 9007199254740992 = 9007199254740992"
proof -
  have stall: "increment 9007199254740992 = 9007199254740992"
    by (simp add: increment_def round_double_def round53_def bit_length.simps Let_def)
  have st: "start always_ok 2147483649 empty_tables = Inr after_long_run"
    by (simp add: start_def resume_at_def empty_tables_def after_long_run_def)
  have len: "length (block_table (pg after_long_run)) = 2147483649"
    unfolding after_long_run_def always_ok_run by (simp add: fresh_def empty_tables_def)
  have "counting (fresh (empty_tables :: (unit, unit) tables) 0)"
    by (simp add: counting_def fresh_def gap_free_def empty_tables_def heights_def)
  moreover have "length (block_table (pg (start_loop always_ok 2147483649
      (fresh (empty_tables :: (unit, unit) tables) 0)))) \<le> 2 ^ 53"
    unfolding always_ok_run by (simp add: fresh_def empty_tables_def)
  ultimately have "counting after_long_run"
    unfolding after_long_run_def by (rule start_loop_counting [OF faithful_always_ok])
  then have gf: "gap_free (pg after_long_run)" by (simp add: counting_def)
  have "(2147483649 :: nat) = Suc 2147483648" by simp
  with gf len have h: "heights (pg after_long_run) = map int [0..<Suc 2147483648]"
    unfolding gap_free_def by metis
  have mx: "sql_max (heights (pg after_long_run)) = Some 2147483648"
    unfolding h sql_max_upt by simp
  have rs: "resume_at (pg after_long_run) = Inl (StoreError ''integer out of range'')"
    unfolding resume_at_gap_free [OF h] by simp
  from st gf len mx rs stall show ?thesis by (simp add: start_def)
qed

lemma indexBlock_Suc:
  "indexBlock getBlock (Suc fuel) h s =
     (case getBlock (calls s) h of
        None \<Rightarrow> indexBlock getBlock fuel h (polled 1 h s)
      | Some b \<Rightarrow> (persisted h b s, Some fuel))"
  by (simp add: Let_def persisted_def polled_def split: option.splits)

lemma polled_polled: "polled n h (polled m h s) = polled (m + n) h s"
  by (simp add: polled_def replicate_add)

lemma indexBlock_after_failures:
  "(\<And>i. i < n \<Longrightarrow> getBlock (calls s + i) h = None) \<Longrightarrow>
     indexBlock getBlock (n + k) h s = indexBlock getBlock k h (polled n h s)"
proof (induction n arbitrary: s)
  case 0
  show ?case by (simp add: polled_def)
next
  case (Suc n)
  from Suc.prems [of 0] have first: "getBlock (calls s) h = None" by simp
  have "getBlock (calls (polled 1 h s) + i) h = None" if "i < n" for i
    using Suc.prems [of "Suc i"] that by (simp add: polled_def)
  then have IH: "indexBlock getBlock (n + k) h (polled 1 h s)
      = indexBlock getBlock k h (polled n h (polled 1 h s))"
    by (rule Suc.IH)
  have "indexBlock getBlock (Suc n + k) h s = indexBlock getBlock (n + k) h (polled 1 h s)"
    using first by (simp add: indexBlock_Suc del: indexBlock.simps)
  also note IH
  also have "polled n h (polled 1 h s) = polled (Suc n) h s"
    by (simp add: polled_polled)
  finally show ?case .
qed

text \<open>
  Claim C8. While the engine fails on the requests for height \<open>h\<close>, \<open>indexBlock\<close> has not
  returned, whatever the number \<open>n\<close> of failures: it has asked \<open>n\<close> times for \<open>h\<close> and
  waited 100 ms after each request, and the store and the height to index are unchanged;
  so is the indexer as a whole when \<open>h\<close> is its height. When the next request delivers
  the block, \<open>indexBlock\<close> returns with the block and its transactions inserted, and only
  then does \<open>start\<close> move to the next height.
\<close>

theorem indexBlock_polls:
  assumes "\<forall>i<n. getBlock (calls s + i) h = None"
  shows "indexBlock getBlock n h s = (polled n h s, None)
    \<and> pg (polled n h s) = pg s \<and> blockID (polled n h s) = blockID s
    \<and> (blockID s = h \<longrightarrow> start_loop getBlock n s = polled n h s)
    \<and> (getBlock (calls s + n) h = Some b \<longrightarrow>
          indexBlock getBlock (Suc n + k) h s = (persisted h b (polled n h s), Some k)
          \<and> (blockID s = h \<longrightarrow>
                start_loop getBlock (Suc n) s
                  = (persisted h b (polled n h s))\<lparr>blockID := increment h\<rparr>))"
proof -
  from assms have fails: "\<And>i. i < n \<Longrightarrow> getBlock (calls s + i) h = None" by simp
  have a: "indexBlock getBlock n h s = (polled n h s, None)"
    using indexBlock_after_failures [of n getBlock s h 0, OF fails] by simp
  have b: "start_loop getBlock n s = polled n h s" if "blockID s = h"
    using that a by (subst start_loop.simps) simp
  have c: "indexBlock getBlock (Suc n + k) h s = (persisted h b (polled n h s), Some k)"
    if "getBlock (calls s + n) h = Some b" for k
  proof -
    have "indexBlock getBlock (n + Suc k) h s = indexBlock getBlock (Suc k) h (polled n h s)"
      using indexBlock_after_failures [of n getBlock s h "Suc k", OF fails] by simp
    moreover have "getBlock (calls (polled n h s)) h = Some b"
      using that by (simp add: polled_def)
    ultimately show ?thesis
      by (simp add: indexBlock_Suc del: indexBlock.simps)
  qed
  have d: "start_loop getBlock (Suc n) s = (persisted h b (polled n h s))\<lparr>blockID := increment h\<rparr>"
    if "getBlock (calls s + n) h = Some b" "blockID s = h"
  proof -
    from c [OF that(1), of 0] have "indexBlock getBlock (Suc n) (blockID s) s
        = (persisted h b (polled n h s), Some 0)"
      using that(2) by simp
    moreover have "blockID (persisted h b (polled n h s)) = h"
      using that(2) by (simp add: persisted_def index_transactions_keeps insert_block_def polled_def)
    ultimately show ?thesis
      by (subst start_loop.simps) (simp, subst start_loop.simps, simp)
  qed
  from a b c d show ?thesis by (simp add: polled_def)
qed

theorem indexBlock_polls_witness:
  "indexBlock third_time 2 7 (fresh empty_tables 7)
     = ((fresh empty_tables 7)\<lparr>calls := 2, trace := [Fetch 7, Sleep 100, Fetch 7, Sleep 100]\<rparr>, None)
   \<and> start_loop third_time 2 (fresh empty_tables 7)
     = (fresh empty_tables 7)\<lparr>calls := 2, trace := [Fetch 7, Sleep 100, Fetch 7, Sleep 100]\<rparr>
   \<and> start_loop third_time 3 (fresh empty_tables 7)
     = \<lparr>pg = \<lparr>block_table = [(7, ())], transaction_table = [(7, 0, ()), (7, 1, ())]\<rparr>,
        blockID = 8, calls = 3,
        trace = [Fetch 7, Sleep 100, Fetch 7, Sleep 100, Fetch 7, Insert_block 7,
                 Insert_transaction 7 0, Insert_transaction 7 1]\<rparr>"
proof -
  have fails: "\<forall>i<2. third_time (calls (fresh (empty_tables :: (unit, unit) tables) 7) + i) 7 = None"
    by (simp add: third_time_def fresh_def less_Suc_eq numeral_2_eq_2)
  have delivers: "third_time (calls (fresh (empty_tables :: (unit, unit) tables) 7) + 2) 7
      = Some \<lparr>number = 7, header = (), transactions = [(), ()]\<rparr>"
    by (simp add: third_time_def fresh_def)
  have three: "Suc 2 = 3" by simp
  have twice: "concat (replicate 2 xs) = xs @ xs" for xs :: "action list"
    by (simp add: numeral_2_eq_2)
  from indexBlock_polls [of 2 third_time "fresh empty_tables 7" 7
      "\<lparr>number = 7, header = (), transactions = [(), ()]\<rparr>" 0] fails delivers
  show ?thesis
    by (simp add: three twice polled_def persisted_def insert_block_def indexTransaction_def
        fresh_def empty_tables_def increment_exact)
qed

end
